theory Spec2Isabelle
  imports Main "HOL-Library.Sublist"
begin

section \<open>JavaScript values and their string forms\<close>

text \<open>
  A JSON document as JavaScript holds it after \<^verbatim>\<open>response.json()\<close> or
  \<^verbatim>\<open>JSON.parse\<close>. Strings are byte strings (the UTF-8 form of the JavaScript
  string). A number \<open>JNum n\<close> is the integer-valued number \<open>n\<close>; fractional numbers
  are outside the model. An object is the list of its own properties in enumeration
  order. The value \<^verbatim>\<open>undefined\<close> is not a JSON value: a property that may be
  undefined has type \<open>json option\<close>, with \<open>None\<close> for \<^verbatim>\<open>undefined\<close>.
\<close>

datatype json =
    JNull
  | JBool bool
  | JNum int
  | JStr string
  | JArr "json list"
  | JObj "(string \<times> json) list"

text \<open>A thrown \<^verbatim>\<open>Error\<close> object, reduced to its \<^verbatim>\<open>message\<close>.\<close>

datatype error = Error (message: string)

text \<open>\<^verbatim>\<open>Array.prototype.join\<close> on strings.\<close>

fun join :: "string \<Rightarrow> string list \<Rightarrow> string" where
  "join sep [] = []"
| "join sep [x] = x"
| "join sep (x # y # ys) = x @ sep @ join sep (y # ys)"

definition digit_char :: "nat \<Rightarrow> char" where
  "digit_char d = ''0123456789'' ! d"

fun show_nat :: "nat \<Rightarrow> string" where
  "show_nat n = (if n < 10 then [digit_char n] else show_nat (n div 10) @ [digit_char (n mod 10)])"

declare show_nat.simps [simp del]

text \<open>
  \<^verbatim>\<open>Number.prototype.toString\<close> on an integer-valued number: the decimal digits, with a
  minus sign for a negative number. These are the digits that JavaScript prints for an
  integer of magnitude up to \<open>2^53\<close>; beyond it JavaScript prints the digits of the
  nearest double, and from \<open>10^21\<close> on an exponent.
\<close>

definition Number_toString :: "int \<Rightarrow> string" where
  "Number_toString i = (if i < 0 then CHR ''-'' # show_nat (nat (- i)) else show_nat (nat i))"

text \<open>
  \<^verbatim>\<open>String(value)\<close>. An array is its elements joined by commas, with null elements
  empty; a plain object is \<^verbatim>\<open>[object Object]\<close>.
\<close>

fun js_String :: "json \<Rightarrow> string" where
  "js_String JNull = ''null''"
| "js_String (JBool b) = (if b then ''true'' else ''false'')"
| "js_String (JNum n) = Number_toString n"
| "js_String (JStr s) = s"
| "js_String (JArr xs) = join '','' (map (\<lambda>x. if x = JNull then [] else js_String x) xs)"
| "js_String (JObj ps) = ''[object Object]''"

subsection \<open>\<^verbatim>\<open>JSON.stringify(value, null, space)\<close>\<close>

definition hex_lower :: "nat \<Rightarrow> char" where
  "hex_lower d = ''0123456789abcdef'' ! d"

text \<open>The escape of one character inside a JSON string literal.\<close>

definition QuoteJSONChar :: "char \<Rightarrow> string" where
  "QuoteJSONChar c =
     (if c = CHR 0x08 then [CHR 0x5C, CHR ''b'']
      else if c = CHR 0x09 then [CHR 0x5C, CHR ''t'']
      else if c = CHR 0x0A then [CHR 0x5C, CHR ''n'']
      else if c = CHR 0x0C then [CHR 0x5C, CHR ''f'']
      else if c = CHR 0x0D then [CHR 0x5C, CHR ''r'']
      else if c = CHR 0x22 then [CHR 0x5C, CHR 0x22]
      else if c = CHR 0x5C then [CHR 0x5C, CHR 0x5C]
      else if (of_char c :: nat) < 0x20 then
        [CHR 0x5C, CHR ''u'', CHR ''0'', CHR ''0'',
         hex_lower (of_char c div 16), hex_lower (of_char c mod 16)]
      else [c])"

definition QuoteJSONString :: "string \<Rightarrow> string" where
  "QuoteJSONString s = CHR 0x22 # concat (map QuoteJSONChar s) @ [CHR 0x22]"

text \<open>
  The serialization of a value at the indentation \<open>ind\<close> with the indentation unit
  \<open>gap\<close> (not empty): an empty array or object has no line break, the members of any
  other stand one per line.
\<close>

fun SerializeJSONProperty :: "string \<Rightarrow> string \<Rightarrow> json \<Rightarrow> string" where
  "SerializeJSONProperty gap ind JNull = ''null''"
| "SerializeJSONProperty gap ind (JBool b) = (if b then ''true'' else ''false'')"
| "SerializeJSONProperty gap ind (JNum n) = Number_toString n"
| "SerializeJSONProperty gap ind (JStr s) = QuoteJSONString s"
| "SerializeJSONProperty gap ind (JArr xs) =
     (if xs = [] then ''[]''
      else ''['' @ [CHR 0x0A] @ (ind @ gap)
           @ join ('','' @ [CHR 0x0A] @ (ind @ gap))
                (map (SerializeJSONProperty gap (ind @ gap)) xs)
           @ [CHR 0x0A] @ ind @ '']'')"
| "SerializeJSONProperty gap ind (JObj ps) =
     (if ps = [] then ''{}''
      else ''{'' @ [CHR 0x0A] @ (ind @ gap)
           @ join ('','' @ [CHR 0x0A] @ (ind @ gap))
                (map (\<lambda>(k, v). QuoteJSONString k @ '': '' @ SerializeJSONProperty gap (ind @ gap) v) ps)
           @ [CHR 0x0A] @ ind @ ''}'')"

text \<open>
  \<^verbatim>\<open>JSON.stringify(value, null, space)\<close> for a number \<open>space\<close> of at least one:
  the indentation unit is \<open>space\<close> blanks, ten at most.
\<close>

definition JSON_stringify :: "nat \<Rightarrow> json \<Rightarrow> string" where
  "JSON_stringify space v = SerializeJSONProperty (replicate (min 10 space) CHR '' '') [] v"

section \<open>The gateway: \<^verbatim>\<open>makeLimitlessRequest\<close>\<close>

subsection \<open>\<^verbatim>\<open>URLSearchParams\<close>\<close>

definition hex_upper :: "nat \<Rightarrow> char" where
  "hex_upper d = ''0123456789ABCDEF'' ! d"

text \<open>
  The bytes that the \<^verbatim>\<open>application/x-www-form-urlencoded\<close> serializer leaves as
  they are: ASCII letters and digits and the four marks \<^verbatim>\<open>*-._\<close>.
\<close>

definition urlencoded_plain :: "char \<Rightarrow> bool" where
  "urlencoded_plain c \<longleftrightarrow>
     c \<in> set ''ABCDEFGHIJKLMNOPQRSTUVWXYZabcdefghijklmnopqrstuvwxyz0123456789*-._''"

text \<open>A blank becomes a plus sign; any other byte becomes a percent sign and two hex digits.\<close>

definition urlencoded_byte :: "char \<Rightarrow> string" where
  "urlencoded_byte c =
     (if c = CHR '' '' then ''+''
      else if urlencoded_plain c then [c]
      else [CHR ''%'', hex_upper (of_char c div 16), hex_upper (of_char c mod 16)])"

definition urlencoded_string :: "string \<Rightarrow> string" where
  "urlencoded_string s = concat (map urlencoded_byte s)"

text \<open>\<^verbatim>\<open>URLSearchParams.prototype.toString\<close>: the entries in order, joined by \<^verbatim>\<open>&\<close>.\<close>

definition URLSearchParams_toString :: "(string \<times> string) list \<Rightarrow> string" where
  "URLSearchParams_toString qs =
     join ''&'' (map (\<lambda>(k, v). urlencoded_string k @ ''='' @ urlencoded_string v) qs)"

subsection \<open>Requests and responses\<close>

record request =
  req_url :: string
  req_method :: string
  req_headers :: "(string \<times> string) list"

text \<open>
  A response as \<^verbatim>\<open>fetch\<close> resolves it: the status, and the outcome of reading the
  body as text (reading fails when the connection breaks before the body ends).
\<close>

record response =
  status :: nat
  body :: "error + string"

text \<open>\<^verbatim>\<open>response.ok\<close>: the status is in the range 200 to 299.\<close>

definition ok :: "response \<Rightarrow> bool" where
  "ok r \<longleftrightarrow> 200 \<le> status r \<and> status r \<le> 299"

subsection \<open>The request function\<close>

text \<open>
  The loop over \<^verbatim>\<open>Object.entries(params)\<close>: \<open>qs\<close> is the list of entries appended
  so far. A value is \<open>None\<close> for \<^verbatim>\<open>undefined\<close>.
\<close>

fun append_params ::
  "(string \<times> string) list \<Rightarrow> (string \<times> json option) list \<Rightarrow> (string \<times> string) list" where
  "append_params qs [] = qs"
| "append_params qs ((key, val) # rest) =
     (case val of
        None \<Rightarrow> append_params qs rest
      | Some v \<Rightarrow>
          if v \<noteq> JNull then append_params (qs @ [(key, js_String v)]) rest
          else append_params qs rest)"

definition request_url :: "string \<Rightarrow> (string \<times> json option) list option \<Rightarrow> string" where
  "request_url url params =
     (case params of
        None \<Rightarrow> url
      | Some ps \<Rightarrow> url @ ''?'' @ URLSearchParams_toString (append_params [] ps))"

text \<open>
  \<open>fetch\<close> is the network, \<open>JSON_parse\<close> the parser behind \<^verbatim>\<open>response.json()\<close>,
  \<open>LIMITLESS_API_KEY\<close> the key read at startup. \<open>Inl\<close> is a rejected promise.
\<close>

definition makeLimitlessRequest ::
  "(request \<Rightarrow> error + response) \<Rightarrow> (string \<Rightarrow> error + json) \<Rightarrow> string \<Rightarrow>
   string \<Rightarrow> (string \<times> json option) list option \<Rightarrow> error + json" where
  "makeLimitlessRequest fetch JSON_parse LIMITLESS_API_KEY url params =
     (let headers = [(''X-API-KEY'', LIMITLESS_API_KEY), (''Content-Type'', ''application/json'')]
      in case fetch \<lparr>req_url = request_url url params, req_method = ''GET'', req_headers = headers\<rparr> of
           Inl e \<Rightarrow> Inl e
         | Inr response \<Rightarrow>
             if \<not> ok response then
               (case body response of
                  Inl e \<Rightarrow> Inl e
                | Inr errorText \<Rightarrow>
                    Inl (Error (''Request failed: '' @ show_nat (status response) @ '' '' @ errorText)))
             else
               (case body response of
                  Inl e \<Rightarrow> Inl e
                | Inr bodyText \<Rightarrow> JSON_parse bodyText))"

section \<open>The server: the \<^verbatim>\<open>getLifelogs\<close> tool\<close>

definition LIMITLESS_API_BASE :: string where
  "LIMITLESS_API_BASE = ''https://api.limitless.ai''"

text \<open>
  A tool result: the content items, and the \<^verbatim>\<open>isError\<close> property, which the success
  result does not have (\<open>None\<close>).
\<close>

record content_item =
  type :: string
  text' :: string

record tool_result =
  content :: "content_item list"
  isError :: "bool option"

text \<open>
  The handler registered for \<^verbatim>\<open>getLifelogs\<close>. Its result is \<open>Inr\<close> when the handler
  returns and \<open>Inl\<close> when an error leaves it.
\<close>

definition getLifelogs_handler ::
  "(request \<Rightarrow> error + response) \<Rightarrow> (string \<Rightarrow> error + json) \<Rightarrow> string \<Rightarrow>
   (string \<times> json option) list \<Rightarrow> error + tool_result" where
  "getLifelogs_handler fetch JSON_parse LIMITLESS_API_KEY params =
     (case makeLimitlessRequest fetch JSON_parse LIMITLESS_API_KEY
             (LIMITLESS_API_BASE @ ''/v1/lifelogs'') (Some params) of
        Inr lifelogs \<Rightarrow>
          Inr \<lparr>content = [\<lparr>type = ''text'', text' = JSON_stringify 2 lifelogs\<rparr>], isError = None\<rparr>
      | Inl error \<Rightarrow>
          Inr \<lparr>content = [\<lparr>type = ''text'', text' = ''Error fetching lifelogs: '' @ message error\<rparr>],
               isError = Some True\<rparr>)"

subsection \<open>The parameter schema\<close>

text \<open>
  The schema combinators the source uses: \<^verbatim>\<open>z.string()\<close>, \<^verbatim>\<open>z.boolean()\<close>,
  \<^verbatim>\<open>z.number()\<close>, \<^verbatim>\<open>z.enum([...])\<close>, \<^verbatim>\<open>.optional()\<close> and
  \<^verbatim>\<open>.default(v)\<close>.
\<close>

datatype zod =
    ZString
  | ZBoolean
  | ZNumber
  | ZEnum "string list"
  | ZOptional zod
  | ZDefault zod json

text \<open>
  Parsing one value against a schema; \<open>None\<close> is \<^verbatim>\<open>undefined\<close> (the property is
  absent). An optional schema lets \<^verbatim>\<open>undefined\<close> through, a default replaces it
  before the inner schema is applied. The error carries the code of the issue.
\<close>

fun zod_parse :: "zod \<Rightarrow> json option \<Rightarrow> error + json option" where
  "zod_parse ZString v =
     (case v of Some (JStr s) \<Rightarrow> Inr v | _ \<Rightarrow> Inl (Error ''invalid_type''))"
| "zod_parse ZBoolean v =
     (case v of Some (JBool b) \<Rightarrow> Inr v | _ \<Rightarrow> Inl (Error ''invalid_type''))"
| "zod_parse ZNumber v =
     (case v of Some (JNum n) \<Rightarrow> Inr v | _ \<Rightarrow> Inl (Error ''invalid_type''))"
| "zod_parse (ZEnum values) v =
     (case v of
        Some (JStr s) \<Rightarrow> if s \<in> set values then Inr v else Inl (Error ''invalid_enum_value'')
      | _ \<Rightarrow> Inl (Error ''invalid_type''))"
| "zod_parse (ZOptional inner) v =
     (case v of None \<Rightarrow> Inr None | Some _ \<Rightarrow> zod_parse inner v)"
| "zod_parse (ZDefault inner d) v =
     (case v of None \<Rightarrow> zod_parse inner (Some d) | Some _ \<Rightarrow> zod_parse inner v)"

definition getLifelogsSchema :: "(string \<times> zod) list" where
  "getLifelogsSchema =
     [(''timezone'', ZOptional ZString),
      (''date'', ZOptional ZString),
      (''start'', ZOptional ZString),
      (''end'', ZOptional ZString),
      (''cursor'', ZOptional ZString),
      (''direction'', ZDefault (ZOptional (ZEnum [''asc'', ''desc''])) (JStr ''desc'')),
      (''includeMarkdown'', ZDefault (ZOptional ZBoolean) (JBool True)),
      (''includeHeadings'', ZDefault (ZOptional ZBoolean) (JBool True)),
      (''limit'', ZOptional ZNumber)]"

text \<open>
  Parsing the properties \<open>data\<close> of the arguments object against a shape, key by key in
  the order of the shape: a key whose parsed value is \<^verbatim>\<open>undefined\<close> is left out of
  the result, a key that is not in the shape is dropped, and the first issue fails the
  whole parse.
\<close>

fun zod_parse_shape ::
  "(string \<times> zod) list \<Rightarrow> (string \<times> json) list \<Rightarrow> error + (string \<times> json option) list" where
  "zod_parse_shape [] data = Inr []"
| "zod_parse_shape ((key, schema) # shape) data =
     (case zod_parse schema (map_of data key) of
        Inl e \<Rightarrow> Inl e
      | Inr r \<Rightarrow>
          (case zod_parse_shape shape data of
             Inl e \<Rightarrow> Inl e
           | Inr rest \<Rightarrow> (case r of None \<Rightarrow> Inr rest | Some v \<Rightarrow> Inr ((key, Some v) # rest))))"

text \<open>\<^verbatim>\<open>z.object(shape)\<close> applied to the arguments of a call.\<close>

definition zod_object_parse ::
  "(string \<times> zod) list \<Rightarrow> json \<Rightarrow> error + (string \<times> json option) list" where
  "zod_object_parse shape args =
     (case args of JObj data \<Rightarrow> zod_parse_shape shape data | _ \<Rightarrow> Inl (Error ''invalid_type''))"

text \<open>
  A call of the tool \<^verbatim>\<open>getLifelogs\<close> as the server answers it: the arguments are
  validated against the schema, and the handler runs on the validated parameters only.
\<close>

definition getLifelogs_tool ::
  "(request \<Rightarrow> error + response) \<Rightarrow> (string \<Rightarrow> error + json) \<Rightarrow> string \<Rightarrow>
   json \<Rightarrow> error + tool_result" where
  "getLifelogs_tool fetch JSON_parse LIMITLESS_API_KEY args =
     (case zod_object_parse getLifelogsSchema args of
        Inl e \<Rightarrow> Inl e
      | Inr params \<Rightarrow> getLifelogs_handler fetch JSON_parse LIMITLESS_API_KEY params)"

text \<open>The request that the handler passes to \<^verbatim>\<open>fetch\<close> for the parameters \<open>params\<close>.\<close>

definition lifelogs_request :: "string \<Rightarrow> (string \<times> json option) list \<Rightarrow> request" where
  "lifelogs_request LIMITLESS_API_KEY params =
     \<lparr>req_url = request_url (LIMITLESS_API_BASE @ ''/v1/lifelogs'') (Some params),
      req_method = ''GET'',
      req_headers = [(''X-API-KEY'', LIMITLESS_API_KEY), (''Content-Type'', ''application/json'')]\<rparr>"

section \<open>Reading a query string\<close>

text \<open>
  What a server reads from a query string (the \<^verbatim>\<open>application/x-www-form-urlencoded\<close>
  parser): the string is cut at every \<^verbatim>\<open>&\<close>, each piece that is not empty is cut at
  its first \<^verbatim>\<open>=\<close>, a plus sign is a blank, and a percent sign with two hex digits
  is the byte they name. The query string contains the field \<open>k\<close> with the value \<open>v\<close>
  when \<open>(k, v)\<close> is among the pairs read.
\<close>

fun split_on :: "char \<Rightarrow> string \<Rightarrow> string list" where
  "split_on c [] = [[]]"
| "split_on c (x # xs) =
     (if x = c then [] # split_on c xs
      else (case split_on c xs of [] \<Rightarrow> [[x]] | y # ys \<Rightarrow> (x # y) # ys))"

definition hex_value :: "char \<Rightarrow> nat option" where
  "hex_value c =
     (let n = (of_char c :: nat)
      in if 48 \<le> n \<and> n \<le> 57 then Some (n - 48)
         else if 65 \<le> n \<and> n \<le> 70 then Some (n - 55)
         else if 97 \<le> n \<and> n \<le> 102 then Some (n - 87)
         else None)"

fun percent_decode :: "string \<Rightarrow> string" where
  "percent_decode [] = []"
| "percent_decode (c # rest) =
     (if c = CHR ''%'' then
        (case rest of
           a # b # rest' \<Rightarrow>
             (case (hex_value a, hex_value b) of
                (Some h, Some l) \<Rightarrow> char_of (16 * h + l) # percent_decode rest'
              | _ \<Rightarrow> c # percent_decode rest)
         | _ \<Rightarrow> c # percent_decode rest)
      else c # percent_decode rest)"

definition urldecoded_string :: "string \<Rightarrow> string" where
  "urldecoded_string s = percent_decode (map (\<lambda>c. if c = CHR ''+'' then CHR '' '' else c) s)"

definition parse_urlencoded :: "string \<Rightarrow> (string \<times> string) list" where
  "parse_urlencoded q =
     concat (map (\<lambda>piece.
         if piece = [] then []
         else [(urldecoded_string (takeWhile (\<lambda>c. c \<noteq> CHR ''='') piece),
                urldecoded_string (drop 1 (dropWhile (\<lambda>c. c \<noteq> CHR ''='') piece)))])
       (split_on CHR ''&'' q))"

section \<open>The client\<close>

text \<open>
  What a run does, in order: console output, prompts, tool calls sent, resources
  closed, the exit of the process. An argument of a console call is a string, a list
  of names or an error object.
\<close>

datatype console_arg = Str string | Names "string list" | Err error

datatype event =
    ConsoleLog "console_arg list"
  | ConsoleError "console_arg list"
  | Question string
  | CallTool string json
  | ReadlineClose
  | ClientClose
  | ToolRegistered string
  | ServerConnected
  | ProcessExit nat

text \<open>
  The session of a client: its transport, and the server subprocess that the transport
  spawned.
\<close>

record session =
  transport_open :: bool
  subprocess_running :: bool

text \<open>
  The outcomes of the calls that a client makes on its session: connecting (which spawns
  the server and opens the transport), listing the tools, and the tool calls, the
  \<open>n\<close>-th call of the session having the outcome \<open>callTool_result n name arguments\<close>.
\<close>

record client_env =
  connect_result :: "error + session"
  listTools_result :: "error + string list"
  callTool_result :: "nat \<Rightarrow> string \<Rightarrow> json \<Rightarrow> error + json"

text \<open>
  Modelled from the spec: \<^verbatim>\<open>Client.close\<close> of the protocol library, whose code is not
  in the repository. Closing releases the transport and terminates the spawned
  subprocess; on a session that is already closed it does nothing and raises no error.
\<close>

definition client_close :: "session \<Rightarrow> (error + unit) \<times> session" where
  "client_close s =
     (if transport_open s
      then (Inr (), s\<lparr>transport_open := False, subprocess_running := False\<rparr>)
      else (Inr (), s))"

definition runClient :: "client_env \<Rightarrow> event list \<times> (error + session)" where
  "runClient env =
     (case connect_result env of
        Inl e \<Rightarrow> ([], Inl e)
      | Inr s \<Rightarrow>
          (case listTools_result env of
             Inl e \<Rightarrow> ([], Inl e)
           | Inr tools \<Rightarrow>
               (let connected = [ConsoleLog [Str ''Connected. Available tools:'', Names tools]];
                    called =
                      (case callTool_result env 0 ''getLifelogs'' (JObj []) of
                         Inr response \<Rightarrow>
                           [CallTool ''getLifelogs'' (JObj []),
                            ConsoleLog [Str ''Response from getLifelogs:'', Str (JSON_stringify 2 response)]]
                       | Inl error \<Rightarrow>
                           [CallTool ''getLifelogs'' (JObj []),
                            ConsoleError [Str ''Error:'', Str (message error)]])
                in case client_close s of
                     (Inl e, s') \<Rightarrow> (connected @ called @ [ClientClose], Inl e)
                   | (Inr _, s') \<Rightarrow> (connected @ called @ [ClientClose], Inr s'))))"

text \<open>
  \<^verbatim>\<open>toLowerCase\<close> on the ASCII letters; other bytes stay (no character outside ASCII
  has a lower case among the letters of \<^verbatim>\<open>quit\<close>).
\<close>

definition toLowerCase :: "string \<Rightarrow> string" where
  "toLowerCase s =
     map (\<lambda>c. if 65 \<le> (of_char c :: nat) \<and> (of_char c :: nat) \<le> 90
               then char_of (of_char c + (32 :: nat)) else c) s"

text \<open>The operator \<^verbatim>\<open>||\<close> on strings: the right operand stands in for the empty string.\<close>

definition js_or :: "string \<Rightarrow> string \<Rightarrow> string" where
  "js_or a b = (if a = [] then b else a)"

definition tool_prompt :: string where
  "tool_prompt = ''Enter tool name (or '' @ [CHR 0x27] @ ''quit'' @ [CHR 0x27] @ ''): ''"

definition params_prompt :: string where
  "params_prompt = ''Enter JSON parameters (or {}): ''"

text \<open>
  How the loop of the interactive client is left: at \<^verbatim>\<open>quit\<close>, or at a question that
  finds no further line. The loop has no case of its own for the end of the input.
\<close>

datatype loop_end = Quit | InputEnded

text \<open>
  The loop of the interactive client over the lines that answer its questions; \<open>n\<close>
  counts the tool calls made so far. Every error of an iteration is caught inside the
  loop. The events of a run that meets the end of the input stop at the question that
  finds no line.
\<close>

fun interactive_loop ::
  "(string \<Rightarrow> error + json) \<Rightarrow> (nat \<Rightarrow> string \<Rightarrow> json \<Rightarrow> error + json) \<Rightarrow> nat \<Rightarrow>
   string list \<Rightarrow> event list \<times> loop_end" where
  "interactive_loop JSON_parse callTool n [] =
     ([Question tool_prompt], InputEnded)"
| "interactive_loop JSON_parse callTool n [toolName] =
     (if toLowerCase toolName = ''quit'' then ([Question tool_prompt], Quit)
      else ([Question tool_prompt, Question params_prompt], InputEnded))"
| "interactive_loop JSON_parse callTool n (toolName # paramsInput # rest) =
     (if toLowerCase toolName = ''quit'' then ([Question tool_prompt], Quit)
      else
        (case JSON_parse (js_or paramsInput ''{}'') of
           Inl e \<Rightarrow>
             (case interactive_loop JSON_parse callTool n rest of
                (evs, r) \<Rightarrow>
                  ([Question tool_prompt, Question params_prompt,
                    ConsoleError [Str ''Invalid JSON. Try again.'']] @ evs, r))
         | Inr params \<Rightarrow>
             (case interactive_loop JSON_parse callTool (Suc n) rest of
                (evs, r) \<Rightarrow>
                  ([Question tool_prompt, Question params_prompt, CallTool toolName params,
                    (case callTool n toolName params of
                       Inr response \<Rightarrow> ConsoleLog [Str ''Response:'', Str (JSON_stringify 2 response)]
                     | Inl error \<Rightarrow> ConsoleError [Str ''Error:'', Str (message error)])] @ evs, r))))"

text \<open>
  The user quits: a line entered at the prompt for the tool name is \<^verbatim>\<open>quit\<close>, in
  upper or lower case.
\<close>

fun reaches_quit :: "string list \<Rightarrow> bool" where
  "reaches_quit [] = False"
| "reaches_quit [toolName] = (toLowerCase toolName = ''quit'')"
| "reaches_quit (toolName # paramsInput # rest) = (toLowerCase toolName = ''quit'' \<or> reaches_quit rest)"

text \<open>
  The input of the interactive client: the lines that answer its questions and, for the
  question that finds no line, whether the readline interface had already closed when
  the question was asked. If it had, the question is rejected; if not, the question
  stays pending and never settles.
\<close>

record terminal =
  input_lines :: "string list"
  closed_before_question :: bool

text \<open>
  \<^verbatim>\<open>runInteractiveClient\<close>. The outcome is \<open>None\<close> when the function never settles:
  a question stays pending, nothing after the loop runs, and the session stays open. A
  rejected question leaves the loop through \<^verbatim>\<open>finally\<close>, which closes the readline
  interface, and the function fails with that error before it reaches the close of the
  session.
\<close>

definition runInteractiveClient ::
  "(string \<Rightarrow> error + json) \<Rightarrow> client_env \<Rightarrow> terminal \<Rightarrow>
   event list \<times> (error + session) option" where
  "runInteractiveClient JSON_parse env inputs =
     (case connect_result env of
        Inl e \<Rightarrow> ([], Some (Inl e))
      | Inr s \<Rightarrow>
          (case listTools_result env of
             Inl e \<Rightarrow> ([], Some (Inl e))
           | Inr tools \<Rightarrow>
               (let connected = [ConsoleLog [Str ''Connected. Available tools:'', Names tools]]
                in case interactive_loop JSON_parse (callTool_result env) 0 (input_lines inputs) of
                     (evs, InputEnded) \<Rightarrow>
                       if closed_before_question inputs
                       then (connected @ evs @ [ReadlineClose], Some (Inl (Error ''readline was closed'')))
                       else (connected @ evs, None)
                   | (evs, Quit) \<Rightarrow>
                       (case client_close s of
                          (Inl e, s') \<Rightarrow> (connected @ evs @ [ReadlineClose, ClientClose], Some (Inl e))
                        | (Inr _, s') \<Rightarrow> (connected @ evs @ [ReadlineClose, ClientClose], Some (Inr s'))))))"

section \<open>The process\<close>

text \<open>
  \<^verbatim>\<open>runServer\<close>: the tool is registered, the server connects to its transport and
  reports that it runs; \<open>server_connect\<close> is the outcome of connecting.
\<close>

definition runServer :: "(error + unit) \<Rightarrow> event list \<times> (error + unit)" where
  "runServer server_connect =
     (case server_connect of
        Inl e \<Rightarrow> ([ToolRegistered ''getLifelogs''], Inl e)
      | Inr _ \<Rightarrow>
          ([ToolRegistered ''getLifelogs'', ServerConnected,
            ConsoleError [Str ''MCP Server running on stdio'']], Inr ()))"

text \<open>The \<^verbatim>\<open>.catch\<close> handler of a mode: the error is printed and the process exits with 1.\<close>

definition catch_exit :: "string \<Rightarrow> event list \<times> (error + 'a) \<Rightarrow> event list" where
  "catch_exit label run =
     (case run of
        (evs, Inl err) \<Rightarrow> evs @ [ConsoleError [Str label, Err err], ProcessExit 1]
      | (evs, Inr _) \<Rightarrow> evs)"

text \<open>
  The module from its first statement to its last: \<open>env\<close> is the environment of the
  process, \<open>argv\<close> its argument vector; the other parameters are what the chosen mode
  meets (the outcome of the server's connect, the client's session, the input typed).
  A mode that never settles adds nothing to what it has done.
\<close>

definition main ::
  "(string \<rightharpoonup> string) \<Rightarrow> string list \<Rightarrow> (error + unit) \<Rightarrow> (string \<Rightarrow> error + json) \<Rightarrow>
   client_env \<Rightarrow> terminal \<Rightarrow> event list" where
  "main env argv server_connect JSON_parse cenv inputs =
     (let LIMITLESS_API_KEY = env ''LIMITLESS_API_KEY''
      in if LIMITLESS_API_KEY = None \<or> LIMITLESS_API_KEY = Some [] then
           [ConsoleError [Str ''Missing LIMITLESS_API_KEY in environment variables''], ProcessExit 1]
         else
           (let mode = (if 2 < length argv then Some (argv ! 2) else None)
            in if mode = Some ''server'' then catch_exit ''Server error:'' (runServer server_connect)
               else if mode = Some ''client'' then catch_exit ''Client error:'' (runClient cenv)
               else if mode = Some ''interactive'' then
                 (case runInteractiveClient JSON_parse cenv inputs of
                    (evs, None) \<Rightarrow> evs
                  | (evs, Some r) \<Rightarrow> catch_exit ''Interactive client error:'' (evs, r))
               else [ConsoleError [Str ''Usage: node build/index.js [server|client|interactive]''],
                     ProcessExit 1]))"

section \<open>Test doubles\<close>

text \<open>
  A parser that agrees with \<^verbatim>\<open>JSON.parse\<close> on the three inputs it is used on: the
  empty object, the document of the empty listing, and the empty string, which is not
  JSON. It rejects every other input and serves only to run the program on examples.
\<close>

definition stub_JSON_parse :: "string \<Rightarrow> error + json" where
  "stub_JSON_parse s =
     (if s = ''{}'' then Inr (JObj [])
      else if s = ''{\"lifelogs\":[]}'' then Inr (JObj [(''lifelogs'', JArr [])])
      else Inl (Error ''Unexpected end of JSON input''))"

section \<open>Properties\<close>

subsection \<open>The first character of a serialized document\<close>

lemma digit_char_in: "d < 10 \<Longrightarrow> digit_char d \<in> set ''0123456789''"
  unfolding digit_char_def by (rule nth_mem) simp

lemma show_nat_first: "\<exists>c cs. show_nat n = c # cs \<and> c \<in> set ''0123456789''"
proof (induction n rule: show_nat.induct)
  case (1 n)
  show ?case
  proof (cases "n < 10")
    case True
    then show ?thesis
      using digit_char_in [of n] by (subst show_nat.simps) simp
  next
    case False
    with "1" obtain c cs where "show_nat (n div 10) = c # cs" "c \<in> set ''0123456789''"
      by blast
    with False show ?thesis
      by (subst show_nat.simps) simp
  qed
qed

lemma Number_toString_first: "\<exists>c cs. Number_toString i = c # cs \<and> c \<in> set ''-0123456789''"
proof (cases "i < 0")
  case True
  then show ?thesis by (simp add: Number_toString_def)
next
  case False
  obtain c cs where "show_nat (nat i) = c # cs" "c \<in> set ''0123456789''"
    using show_nat_first by blast
  with False show ?thesis by (auto simp: Number_toString_def)
qed

lemma SerializeJSONProperty_first:
  "\<exists>c cs. SerializeJSONProperty gap ind v = c # cs \<and> c \<noteq> CHR ''E''"
proof (cases v)
  case JNull
  then show ?thesis by simp
next
  case (JBool b)
  then show ?thesis by simp
next
  case (JNum n)
  obtain c cs where "Number_toString n = c # cs" "c \<in> set ''-0123456789''"
    using Number_toString_first by blast
  with JNum show ?thesis by auto
next
  case (JStr s)
  then show ?thesis by (simp add: QuoteJSONString_def)
next
  case (JArr xs)
  then show ?thesis by simp
next
  case (JObj ps)
  then show ?thesis by simp
qed

lemma JSON_stringify_not_error_text:
  "\<not> prefix (''Error fetching lifelogs: '' @ m) (JSON_stringify space v)"
proof -
  obtain c cs where "JSON_stringify space v = c # cs" "c \<noteq> CHR ''E''"
    using SerializeJSONProperty_first [of "replicate (min 10 space) CHR '' ''" "[]" v]
    unfolding JSON_stringify_def by auto
  then show ?thesis by simp
qed

subsection \<open>The gateway's result\<close>

text \<open>
  C2, as the code has it. When \<^verbatim>\<open>fetch\<close> resolves with a response: on a status
  outside 200 to 299 the request function fails, with the error whose message is
  \<^verbatim>\<open>Request failed: \<close>, the status in decimal, a blank and the body text unchanged
  when the body can be read, and with the error of the read when it cannot; on a status
  from 200 to 299 it returns the document when the body text parses as JSON, and fails
  with the parser's error when it does not, or with the error of the read when the body
  cannot be read.
\<close>

theorem makeLimitlessRequest_status:
  assumes "fetch \<lparr>req_url = request_url url params, req_method = ''GET'',
             req_headers = [(''X-API-KEY'', key), (''Content-Type'', ''application/json'')]\<rparr> = Inr r"
  shows "(\<not> (200 \<le> status r \<and> status r \<le> 299) \<longrightarrow>
            (\<exists>e. makeLimitlessRequest fetch JSON_parse key url params = Inl e)
          \<and> (\<forall>t. body r = Inr t \<longrightarrow>
                 makeLimitlessRequest fetch JSON_parse key url params =
                   Inl (Error (''Request failed: '' @ show_nat (status r) @ '' '' @ t)))
          \<and> (\<forall>e. body r = Inl e \<longrightarrow>
                 makeLimitlessRequest fetch JSON_parse key url params = Inl e))
    \<and> (200 \<le> status r \<and> status r \<le> 299 \<longrightarrow>
            (\<forall>t D. body r = Inr t \<and> JSON_parse t = Inr D \<longrightarrow>
                 makeLimitlessRequest fetch JSON_parse key url params = Inr D)
          \<and> (\<forall>t e. body r = Inr t \<and> JSON_parse t = Inl e \<longrightarrow>
                 makeLimitlessRequest fetch JSON_parse key url params = Inl e)
          \<and> (\<forall>e. body r = Inl e \<longrightarrow>
                 makeLimitlessRequest fetch JSON_parse key url params = Inl e))"
proof (intro conjI impI allI)
  assume n: "\<not> (200 \<le> status r \<and> status r \<le> 299)"
  show "\<exists>e. makeLimitlessRequest fetch JSON_parse key url params = Inl e"
    using assms n by (cases "body r") (simp_all add: makeLimitlessRequest_def ok_def)
  show "makeLimitlessRequest fetch JSON_parse key url params =
          Inl (Error (''Request failed: '' @ show_nat (status r) @ '' '' @ t))"
    if "body r = Inr t" for t
    using assms n that by (simp add: makeLimitlessRequest_def ok_def)
  show "makeLimitlessRequest fetch JSON_parse key url params = Inl e"
    if "body r = Inl e" for e
    using assms n that by (simp add: makeLimitlessRequest_def ok_def)
next
  assume y: "200 \<le> status r \<and> status r \<le> 299"
  show "makeLimitlessRequest fetch JSON_parse key url params = Inr D"
    if "body r = Inr t \<and> JSON_parse t = Inr D" for t D
    using assms y that by (simp add: makeLimitlessRequest_def ok_def)
  show "makeLimitlessRequest fetch JSON_parse key url params = Inl e"
    if "body r = Inr t \<and> JSON_parse t = Inl e" for t e
    using assms y that by (simp add: makeLimitlessRequest_def ok_def)
  show "makeLimitlessRequest fetch JSON_parse key url params = Inl e"
    if "body r = Inl e" for e
    using assms y that by (simp add: makeLimitlessRequest_def ok_def)
qed

theorem makeLimitlessRequest_status_witness:
  "makeLimitlessRequest (\<lambda>q. Inr \<lparr>status = 401, body = Inr ''unauthorized''\<rparr>) stub_JSON_parse ''k''
     ''https://api.limitless.ai/v1/lifelogs'' None = Inl (Error ''Request failed: 401 unauthorized'')
   \<and> makeLimitlessRequest (\<lambda>q. Inr \<lparr>status = 200, body = Inr ''{\"lifelogs\":[]}''\<rparr>) stub_JSON_parse ''k''
     ''https://api.limitless.ai/v1/lifelogs'' None = Inr (JObj [(''lifelogs'', JArr [])])"
proof
  have "show_nat 401 = ''401''" by code_simp
  then show "makeLimitlessRequest (\<lambda>q. Inr \<lparr>status = 401, body = Inr ''unauthorized''\<rparr>) stub_JSON_parse ''k''
     ''https://api.limitless.ai/v1/lifelogs'' None = Inl (Error ''Request failed: 401 unauthorized'')"
    using makeLimitlessRequest_status [of "\<lambda>q. Inr \<lparr>status = 401, body = Inr ''unauthorized''\<rparr>"
        "''https://api.limitless.ai/v1/lifelogs''" None "''k''" "\<lparr>status = 401, body = Inr ''unauthorized''\<rparr>"
        stub_JSON_parse]
    by simp
  have "stub_JSON_parse ''{\"lifelogs\":[]}'' = Inr (JObj [(''lifelogs'', JArr [])])"
    by (simp add: stub_JSON_parse_def)
  then show "makeLimitlessRequest (\<lambda>q. Inr \<lparr>status = 200, body = Inr ''{\"lifelogs\":[]}''\<rparr>) stub_JSON_parse ''k''
     ''https://api.limitless.ai/v1/lifelogs'' None = Inr (JObj [(''lifelogs'', JArr [])])"
    using makeLimitlessRequest_status [of "\<lambda>q. Inr \<lparr>status = 200, body = Inr ''{\"lifelogs\":[]}''\<rparr>"
        "''https://api.limitless.ai/v1/lifelogs''" None "''k''" "\<lparr>status = 200, body = Inr ''{\"lifelogs\":[]}''\<rparr>"
        stub_JSON_parse]
    by simp
qed

text \<open>
  A response 204 with an empty body has a success status, and the request function
  fails on it, since the empty text is not JSON. A response 500 whose body cannot be
  read makes it fail with an error that carries no status.
\<close>

theorem makeLimitlessRequest_success_fails:
  "makeLimitlessRequest (\<lambda>q. Inr \<lparr>status = 204, body = Inr []\<rparr>) stub_JSON_parse ''k''
     ''https://api.limitless.ai/v1/lifelogs'' None = Inl (Error ''Unexpected end of JSON input'')
   \<and> makeLimitlessRequest (\<lambda>q. Inr \<lparr>status = 500, body = Inl (Error ''terminated'')\<rparr>) stub_JSON_parse ''k''
     ''https://api.limitless.ai/v1/lifelogs'' None = Inl (Error ''terminated'')"
  by (simp add: makeLimitlessRequest_def ok_def stub_JSON_parse_def)

subsection \<open>The handler's result\<close>

text \<open>
  C3. The handler of \<^verbatim>\<open>getLifelogs\<close> always returns a tool result and lets no error
  out. When the gateway fails with the message \<open>m\<close> the result is the text
  \<^verbatim>\<open>Error fetching lifelogs: \<close> followed by \<open>m\<close>, with the error flag set; when the
  gateway returns the document \<open>D\<close> the result is the text of \<open>D\<close> printed as JSON with
  an indentation of two, with no error flag. A response 401 with the body
  \<^verbatim>\<open>unauthorized\<close> gives a failure whose text contains \<^verbatim>\<open>401\<close> and
  \<^verbatim>\<open>unauthorized\<close>.
\<close>

theorem getLifelogs_handler_results:
  "(\<exists>r. getLifelogs_handler fetch JSON_parse key params = Inr r)
   \<and> (\<forall>m. makeLimitlessRequest fetch JSON_parse key (LIMITLESS_API_BASE @ ''/v1/lifelogs'') (Some params)
            = Inl (Error m) \<longrightarrow>
          getLifelogs_handler fetch JSON_parse key params =
            Inr \<lparr>content = [\<lparr>type = ''text'', text' = ''Error fetching lifelogs: '' @ m\<rparr>],
                 isError = Some True\<rparr>)
   \<and> (\<forall>D. makeLimitlessRequest fetch JSON_parse key (LIMITLESS_API_BASE @ ''/v1/lifelogs'') (Some params)
            = Inr D \<longrightarrow>
          getLifelogs_handler fetch JSON_parse key params =
            Inr \<lparr>content = [\<lparr>type = ''text'', text' = JSON_stringify 2 D\<rparr>], isError = None\<rparr>)
   \<and> (fetch (lifelogs_request key params) = Inr \<lparr>status = 401, body = Inr ''unauthorized''\<rparr> \<longrightarrow>
          (\<exists>t. getLifelogs_handler fetch JSON_parse key params =
                 Inr \<lparr>content = [\<lparr>type = ''text'', text' = t\<rparr>], isError = Some True\<rparr>
               \<and> sublist ''401'' t \<and> sublist ''unauthorized'' t))"
proof (intro conjI allI impI)
  show "\<exists>r. getLifelogs_handler fetch JSON_parse key params = Inr r"
    by (simp add: getLifelogs_handler_def split: sum.split)
next
  fix m
  assume "makeLimitlessRequest fetch JSON_parse key (LIMITLESS_API_BASE @ ''/v1/lifelogs'') (Some params)
            = Inl (Error m)"
  then show "getLifelogs_handler fetch JSON_parse key params =
            Inr \<lparr>content = [\<lparr>type = ''text'', text' = ''Error fetching lifelogs: '' @ m\<rparr>],
                 isError = Some True\<rparr>"
    by (simp add: getLifelogs_handler_def)
next
  fix D
  assume "makeLimitlessRequest fetch JSON_parse key (LIMITLESS_API_BASE @ ''/v1/lifelogs'') (Some params)
            = Inr D"
  then show "getLifelogs_handler fetch JSON_parse key params =
            Inr \<lparr>content = [\<lparr>type = ''text'', text' = JSON_stringify 2 D\<rparr>], isError = None\<rparr>"
    by (simp add: getLifelogs_handler_def)
next
  assume f: "fetch (lifelogs_request key params) = Inr \<lparr>status = 401, body = Inr ''unauthorized''\<rparr>"
  have n: "show_nat 401 = ''401''" by code_simp
  let ?t = "''Error fetching lifelogs: Request failed: 401 unauthorized''"
  have g: "makeLimitlessRequest fetch JSON_parse key (LIMITLESS_API_BASE @ ''/v1/lifelogs'') (Some params)
            = Inl (Error ''Request failed: 401 unauthorized'')"
    using f n by (simp add: makeLimitlessRequest_def lifelogs_request_def ok_def)
  have h: "getLifelogs_handler fetch JSON_parse key params =
          Inr \<lparr>content = [\<lparr>type = ''text'', text' = ?t\<rparr>], isError = Some True\<rparr>"
    using g by (simp add: getLifelogs_handler_def)
  have "sublist ''401'' (''Error fetching lifelogs: Request failed: '' @ ''401'' @ '' unauthorized'')"
    by (rule sublist_appendI)
  then have s1: "sublist ''401'' ?t" by simp
  have "sublist ''unauthorized'' (''Error fetching lifelogs: Request failed: 401 '' @ ''unauthorized'' @ [])"
    by (rule sublist_appendI)
  then have s2: "sublist ''unauthorized'' ?t" by simp
  from h s1 s2
  show "\<exists>t. getLifelogs_handler fetch JSON_parse key params =
                 Inr \<lparr>content = [\<lparr>type = ''text'', text' = t\<rparr>], isError = Some True\<rparr>
               \<and> sublist ''401'' t \<and> sublist ''unauthorized'' t"
    by blast
qed

theorem getLifelogs_handler_results_witness:
  "getLifelogs_handler (\<lambda>q. Inr \<lparr>status = 401, body = Inr ''unauthorized''\<rparr>) stub_JSON_parse ''k'' [] =
     Inr \<lparr>content = [\<lparr>type = ''text'',
                       text' = ''Error fetching lifelogs: Request failed: 401 unauthorized''\<rparr>],
          isError = Some True\<rparr>
   \<and> getLifelogs_handler (\<lambda>q. Inr \<lparr>status = 200, body = Inr ''{\"lifelogs\":[]}''\<rparr>) stub_JSON_parse ''k'' [] =
     Inr \<lparr>content = [\<lparr>type = ''text'',
                       text' = ''{'' @ [CHR 0x0A] @ ''  \"lifelogs\": []'' @ [CHR 0x0A] @ ''}''\<rparr>],
          isError = None\<rparr>"
proof
  let ?f = "\<lambda>q :: request. (Inr \<lparr>status = 401, body = Inr ''unauthorized''\<rparr> :: error + response)"
  have n: "show_nat 401 = ''401''" by code_simp
  have g: "makeLimitlessRequest ?f stub_JSON_parse ''k'' (LIMITLESS_API_BASE @ ''/v1/lifelogs'') (Some [])
             = Inl (Error ''Request failed: 401 unauthorized'')"
    using n by (simp add: makeLimitlessRequest_def ok_def)
  show "getLifelogs_handler ?f stub_JSON_parse ''k'' [] =
     Inr \<lparr>content = [\<lparr>type = ''text'',
                       text' = ''Error fetching lifelogs: Request failed: 401 unauthorized''\<rparr>],
          isError = Some True\<rparr>"
    using getLifelogs_handler_results [of ?f stub_JSON_parse "''k''" "[]"] g by simp
next
  let ?f = "\<lambda>q :: request. (Inr \<lparr>status = 200, body = Inr ''{\"lifelogs\":[]}''\<rparr> :: error + response)"
  have g: "makeLimitlessRequest ?f stub_JSON_parse ''k'' (LIMITLESS_API_BASE @ ''/v1/lifelogs'') (Some [])
             = Inr (JObj [(''lifelogs'', JArr [])])"
    by (simp add: makeLimitlessRequest_def ok_def stub_JSON_parse_def)
  have p: "JSON_stringify 2 (JObj [(''lifelogs'', JArr [])]) =
             ''{'' @ [CHR 0x0A] @ ''  \"lifelogs\": []'' @ [CHR 0x0A] @ ''}''"
    by (simp add: JSON_stringify_def QuoteJSONString_def QuoteJSONChar_def numeral_2_eq_2)
  show "getLifelogs_handler ?f stub_JSON_parse ''k'' [] =
     Inr \<lparr>content = [\<lparr>type = ''text'',
                       text' = ''{'' @ [CHR 0x0A] @ ''  \"lifelogs\": []'' @ [CHR 0x0A] @ ''}''\<rparr>],
          isError = None\<rparr>"
    using getLifelogs_handler_results [of ?f stub_JSON_parse "''k''" "[]"] g p by simp
qed

text \<open>
  C4. In a result of the handler the error flag and the text agree: the flag is set
  exactly when the text has the form \<^verbatim>\<open>Error fetching lifelogs: ...\<close>, it is absent
  exactly when the text is a document printed as JSON, and no text is both.
\<close>

theorem tool_result_exclusive:
  assumes "getLifelogs_handler fetch JSON_parse key params = Inr r"
  shows "\<exists>t. content r = [\<lparr>type = ''text'', text' = t\<rparr>]
     \<and> (isError r = Some True \<longleftrightarrow> prefix ''Error fetching lifelogs: '' t)
     \<and> (isError r = None \<longleftrightarrow> (\<exists>D. t = JSON_stringify 2 D))
     \<and> (isError r = Some True \<or> isError r = None)
     \<and> \<not> ((\<exists>D. t = JSON_stringify 2 D) \<and> prefix ''Error fetching lifelogs: '' t)"
proof (cases "makeLimitlessRequest fetch JSON_parse key (LIMITLESS_API_BASE @ ''/v1/lifelogs'') (Some params)")
  case (Inl e)
  with assms have r: "r = \<lparr>content = [\<lparr>type = ''text'', text' = ''Error fetching lifelogs: '' @ message e\<rparr>],
               isError = Some True\<rparr>"
    by (simp add: getLifelogs_handler_def)
  have "\<And>D. ''Error fetching lifelogs: '' @ message e \<noteq> JSON_stringify 2 D"
    using JSON_stringify_not_error_text [of "message e" 2] by (metis prefix_order.order_refl)
  with r show ?thesis by simp
next
  case (Inr D)
  with assms have r: "r = \<lparr>content = [\<lparr>type = ''text'', text' = JSON_stringify 2 D\<rparr>], isError = None\<rparr>"
    by (simp add: getLifelogs_handler_def)
  have "\<not> prefix ''Error fetching lifelogs: '' (JSON_stringify 2 D)"
    using JSON_stringify_not_error_text [of "[]" 2 D] by simp
  with r show ?thesis by auto
qed

theorem tool_result_exclusive_witness:
  "getLifelogs_handler (\<lambda>q. Inr \<lparr>status = 401, body = Inr ''unauthorized''\<rparr>) stub_JSON_parse ''k'' [] =
     Inr \<lparr>content = [\<lparr>type = ''text'',
                       text' = ''Error fetching lifelogs: Request failed: 401 unauthorized''\<rparr>],
          isError = Some True\<rparr>
   \<and> prefix ''Error fetching lifelogs: '' ''Error fetching lifelogs: Request failed: 401 unauthorized''
   \<and> (\<forall>D. ''Error fetching lifelogs: Request failed: 401 unauthorized'' \<noteq> JSON_stringify 2 D)"
proof -
  let ?f = "\<lambda>q :: request. (Inr \<lparr>status = 401, body = Inr ''unauthorized''\<rparr> :: error + response)"
  let ?r = "\<lparr>content = [\<lparr>type = ''text'',
                       text' = ''Error fetching lifelogs: Request failed: 401 unauthorized''\<rparr>],
          isError = Some True\<rparr>"
  have n: "show_nat 401 = ''401''" by code_simp
  have h: "getLifelogs_handler ?f stub_JSON_parse ''k'' [] = Inr ?r"
    using n by (simp add: getLifelogs_handler_def makeLimitlessRequest_def ok_def)
  from tool_result_exclusive [OF h] h show ?thesis by simp
qed

subsection \<open>The query string reads back as the entries appended\<close>

lemma hex_upper_table:
  "\<forall>d \<in> set [0..<16]. hex_value (hex_upper d) = Some d
      \<and> hex_upper d \<noteq> CHR ''&'' \<and> hex_upper d \<noteq> CHR ''='' \<and> hex_upper d \<noteq> CHR ''+''"
  by code_simp

lemma hex_upper_props:
  assumes "d < 16"
  shows "hex_value (hex_upper d) = Some d" "hex_upper d \<noteq> CHR ''&''"
    "hex_upper d \<noteq> CHR ''=''" "hex_upper d \<noteq> CHR ''+''"
  using hex_upper_table assms by auto

lemma of_char_div_16: "(of_char (c :: char) :: nat) div 16 < 16"
proof -
  have "(of_char c :: nat) < 256" by (rule nat_of_char_less_256)
  then show ?thesis by arith
qed

lemma urlencoded_plain_not_mark:
  "urlencoded_plain c \<Longrightarrow> c \<noteq> CHR ''&'' \<and> c \<noteq> CHR ''='' \<and> c \<noteq> CHR ''+'' \<and> c \<noteq> CHR ''%''"
  by (auto simp: urlencoded_plain_def)

lemma urlencoded_byte_no_mark:
  "x \<in> set (urlencoded_byte c) \<Longrightarrow> x \<noteq> CHR ''&'' \<and> x \<noteq> CHR ''=''"
  using hex_upper_props [OF of_char_div_16 [of c]] hex_upper_props [of "of_char c mod 16"]
    urlencoded_plain_not_mark [of c]
  by (auto simp: urlencoded_byte_def split: if_splits)

lemma urlencoded_string_no_mark:
  "x \<in> set (urlencoded_string s) \<Longrightarrow> x \<noteq> CHR ''&'' \<and> x \<noteq> CHR ''=''"
  using urlencoded_byte_no_mark by (auto simp: urlencoded_string_def)

lemma urldecoded_byte:
  "urldecoded_string (urlencoded_byte c @ t) = c # urldecoded_string t"
proof -
  let ?n = "of_char c :: nat"
  consider "c = CHR '' ''" | "c \<noteq> CHR '' ''" "urlencoded_plain c"
    | "c \<noteq> CHR '' ''" "\<not> urlencoded_plain c" by blast
  then show ?thesis
  proof cases
    case 1
    then show ?thesis by (simp add: urlencoded_byte_def urldecoded_string_def)
  next
    case 2
    with urlencoded_plain_not_mark [of c] show ?thesis
      by (simp add: urlencoded_byte_def urldecoded_string_def)
  next
    case 3
    have h: "hex_value (hex_upper (?n div 16)) = Some (?n div 16)"
      "hex_upper (?n div 16) \<noteq> CHR ''+''"
      using hex_upper_props [OF of_char_div_16 [of c]] by simp_all
    have l: "hex_value (hex_upper (?n mod 16)) = Some (?n mod 16)"
      "hex_upper (?n mod 16) \<noteq> CHR ''+''"
      using hex_upper_props [of "?n mod 16"] by simp_all
    have "char_of (16 * (?n div 16) + ?n mod 16) = c" by simp
    with 3 h l show ?thesis
      by (simp add: urlencoded_byte_def urldecoded_string_def)
  qed
qed

lemma urldecoded_urlencoded: "urldecoded_string (urlencoded_string s) = s"
proof (induction s)
  case Nil
  then show ?case by (simp add: urlencoded_string_def urldecoded_string_def)
next
  case (Cons c s)
  have "urlencoded_string (c # s) = urlencoded_byte c @ urlencoded_string s"
    by (simp add: urlencoded_string_def)
  with Cons show ?case by (simp add: urldecoded_byte)
qed

lemma split_on_plain: "c \<notin> set t \<Longrightarrow> split_on c t = [t]"
  by (induction t) auto

lemma split_on_append: "c \<notin> set t \<Longrightarrow> split_on c (t @ c # rest) = t # split_on c rest"
proof (induction t)
  case Nil
  then show ?case by simp
next
  case (Cons x t)
  then show ?case by (cases "split_on c rest") auto
qed

lemma split_on_join:
  "toks \<noteq> [] \<Longrightarrow> \<forall>t \<in> set toks. c \<notin> set t \<Longrightarrow> split_on c (join [c] toks) = toks"
proof (induction toks)
  case Nil
  then show ?case by simp
next
  case (Cons x toks)
  show ?case
  proof (cases toks)
    case Nil
    with Cons.prems show ?thesis by (simp add: split_on_plain)
  next
    case (Cons y ys)
    with Cons.IH Cons.prems have "split_on c (join [c] (y # ys)) = y # ys" by simp
    with Cons Cons.prems show ?thesis by (simp add: split_on_append)
  qed
qed

lemma piece_name:
  "takeWhile (\<lambda>c. c \<noteq> CHR ''='') (urlencoded_string k @ CHR ''='' # urlencoded_string v) = urlencoded_string k"
  using urlencoded_string_no_mark [of _ k] by (simp add: takeWhile_append2 takeWhile_eq_all_conv)

lemma piece_value:
  "dropWhile (\<lambda>c. c \<noteq> CHR ''='') (urlencoded_string k @ CHR ''='' # urlencoded_string v)
     = CHR ''='' # urlencoded_string v"
  using urlencoded_string_no_mark [of _ k] by (simp add: dropWhile_append2)

lemma parse_urlencoded_toString: "parse_urlencoded (URLSearchParams_toString qs) = qs"
proof (cases "qs = []")
  case True
  then show ?thesis by (simp add: parse_urlencoded_def URLSearchParams_toString_def)
next
  case False
  let ?toks = "map (\<lambda>(k, v). urlencoded_string k @ ''='' @ urlencoded_string v) qs"
  have ne: "?toks \<noteq> []" using False by simp
  have amp: "\<forall>t \<in> set ?toks. CHR ''&'' \<notin> set t"
    using urlencoded_string_no_mark by auto
  have sp: "split_on CHR ''&'' (join ''&'' ?toks) = ?toks"
    using split_on_join [OF ne amp] by simp
  have "concat (map (\<lambda>piece.
         if piece = [] then []
         else [(urldecoded_string (takeWhile (\<lambda>c. c \<noteq> CHR ''='') piece),
                urldecoded_string (drop 1 (dropWhile (\<lambda>c. c \<noteq> CHR ''='') piece)))]) ?toks) = qs"
    by (induction qs) (auto simp: piece_name piece_value urldecoded_urlencoded)
  with sp show ?thesis by (simp add: parse_urlencoded_def URLSearchParams_toString_def)
qed

lemma append_params_eq:
  "append_params qs ps =
     qs @ map (\<lambda>(key, val). (key, js_String (the val)))
            (filter (\<lambda>(key, val). val \<noteq> None \<and> val \<noteq> Some JNull) ps)"
proof (induction ps arbitrary: qs)
  case Nil
  then show ?case by simp
next
  case (Cons p ps)
  obtain key val where p: "p = (key, val)" by (cases p)
  show ?case
  proof (cases val)
    case None
    with p Cons show ?thesis by simp
  next
    case (Some v)
    with p Cons show ?thesis by (cases "v = JNull") simp_all
  qed
qed

lemma append_params_mem:
  "(key, s) \<in> set (append_params [] ps) \<longleftrightarrow>
     (\<exists>v. (key, Some v) \<in> set ps \<and> v \<noteq> JNull \<and> s = js_String v)"
  by (force simp: append_params_eq)

text \<open>
  C1, as the code has it. For parameters with distinct keys, the URL requested is the
  given URL, a question mark and the query string; the fields read back from the query
  string are, in order, exactly the entries whose value is neither undefined nor null,
  each with the string form of its value; a key whose value is undefined or null, or that
  is not among the parameters, is not in the query string; and a field reads back as the
  empty string or as \<^verbatim>\<open>null\<close> only when that is the string form of its value, which is
  neither undefined nor null (the empty string, for one).
\<close>

theorem request_url_fields:
  assumes "distinct (map fst params)"
  shows "request_url url (Some params) = url @ ''?'' @ URLSearchParams_toString (append_params [] params)
    \<and> parse_urlencoded (URLSearchParams_toString (append_params [] params)) =
        map (\<lambda>(key, val). (key, js_String (the val)))
          (filter (\<lambda>(key, val). val \<noteq> None \<and> val \<noteq> Some JNull) params)
    \<and> (\<forall>key. (key, None) \<in> set params \<or> (key, Some JNull) \<in> set params \<or> key \<notin> fst ` set params \<longrightarrow>
          key \<notin> fst ` set (parse_urlencoded (URLSearchParams_toString (append_params [] params))))
    \<and> (\<forall>key s. (key, s) \<in> set (parse_urlencoded (URLSearchParams_toString (append_params [] params)))
          \<and> (s = [] \<or> s = ''null'') \<longrightarrow>
          (\<exists>v. (key, Some v) \<in> set params \<and> v \<noteq> JNull \<and> js_String v = s))"
proof (intro conjI allI impI)
  show "request_url url (Some params) = url @ ''?'' @ URLSearchParams_toString (append_params [] params)"
    by (simp add: request_url_def)
next
  show "parse_urlencoded (URLSearchParams_toString (append_params [] params)) =
        map (\<lambda>(key, val). (key, js_String (the val)))
          (filter (\<lambda>(key, val). val \<noteq> None \<and> val \<noteq> Some JNull) params)"
    by (simp add: parse_urlencoded_toString append_params_eq)
next
  fix key
  assume a: "(key, None) \<in> set params \<or> (key, Some JNull) \<in> set params \<or> key \<notin> fst ` set params"
  show "key \<notin> fst ` set (parse_urlencoded (URLSearchParams_toString (append_params [] params)))"
  proof
    assume "key \<in> fst ` set (parse_urlencoded (URLSearchParams_toString (append_params [] params)))"
    then obtain s where "(key, s) \<in> set (append_params [] params)"
      by (auto simp: parse_urlencoded_toString)
    then obtain v where v: "(key, Some v) \<in> set params" "v \<noteq> JNull"
      by (auto simp: append_params_mem)
    from a show False
    proof (elim disjE)
      assume "(key, None) \<in> set params"
      with v assms show False by (meson eq_key_imp_eq_value option.distinct(1))
    next
      assume "(key, Some JNull) \<in> set params"
      with v assms have "Some v = Some JNull" by (meson eq_key_imp_eq_value)
      with v show False by simp
    next
      assume "key \<notin> fst ` set params"
      with v show False by force
    qed
  qed
next
  fix key s
  assume "(key, s) \<in> set (parse_urlencoded (URLSearchParams_toString (append_params [] params)))
          \<and> (s = [] \<or> s = ''null'')"
  then show "\<exists>v. (key, Some v) \<in> set params \<and> v \<noteq> JNull \<and> js_String v = s"
    by (auto simp: parse_urlencoded_toString append_params_mem)
qed

theorem request_url_fields_witness:
  "request_url ''https://api.limitless.ai/v1/lifelogs''
     (Some [(''timezone'', Some (JStr ''Europe/Lisbon'')), (''date'', None), (''cursor'', Some JNull),
            (''includeMarkdown'', Some (JBool False)), (''limit'', Some (JNum 5))])
     = ''https://api.limitless.ai/v1/lifelogs?timezone=Europe%2FLisbon&includeMarkdown=false&limit=5''
   \<and> parse_urlencoded ''timezone=Europe%2FLisbon&includeMarkdown=false&limit=5''
     = [(''timezone'', ''Europe/Lisbon''), (''includeMarkdown'', ''false''), (''limit'', ''5'')]"
proof -
  let ?ps = "[(''timezone'', Some (JStr ''Europe/Lisbon'')), (''date'', None), (''cursor'', Some JNull),
            (''includeMarkdown'', Some (JBool False)), (''limit'', Some (JNum 5))]"
  have d: "distinct (map fst ?ps)" by simp
  have q: "URLSearchParams_toString (append_params [] ?ps)
             = ''timezone=Europe%2FLisbon&includeMarkdown=false&limit=5''"
    by code_simp
  have n: "js_String (JNum 5) = ''5''" by code_simp
  from request_url_fields [OF d, of "''https://api.limitless.ai/v1/lifelogs''"] q n
  show ?thesis by simp
qed

text \<open>
  The parameter \<^verbatim>\<open>timezone\<close> with the empty string as its value is serialized, with
  an empty value.
\<close>

theorem request_url_empty_token:
  "request_url ''https://api.limitless.ai/v1/lifelogs'' (Some [(''timezone'', Some (JStr ''''))])
     = ''https://api.limitless.ai/v1/lifelogs?timezone=''
   \<and> parse_urlencoded ''timezone='' = [(''timezone'', '''')]"
  by code_simp

subsection \<open>Validated parameters\<close>

lemma zod_parse_shape_mem:
  "zod_parse_shape shape data = Inr params \<Longrightarrow> (key, schema) \<in> set shape \<Longrightarrow>
     \<exists>r. zod_parse schema (map_of data key) = Inr r \<and> (\<forall>v. r = Some v \<longrightarrow> (key, Some v) \<in> set params)"
proof (induction shape arbitrary: params)
  case Nil
  then show ?case by simp
next
  case (Cons p shape)
  obtain k s where p: "p = (k, s)" by (cases p)
  from Cons.prems(1) p obtain r rest where
    r: "zod_parse s (map_of data k) = Inr r" and rest: "zod_parse_shape shape data = Inr rest"
    and params: "params = (case r of None \<Rightarrow> rest | Some v \<Rightarrow> (k, Some v) # rest)"
    by (auto split: sum.splits option.splits)
  show ?case
  proof (cases "(key, schema) = (k, s)")
    case True
    with r params show ?thesis by (auto split: option.splits)
  next
    case False
    with Cons.prems(2) p have "(key, schema) \<in> set shape" by auto
    from Cons.IH [OF rest this] obtain r' where
      "zod_parse schema (map_of data key) = Inr r'" "\<forall>v. r' = Some v \<longrightarrow> (key, Some v) \<in> set rest"
      by blast
    with params show ?thesis by (auto split: option.splits)
  qed
qed

lemma zod_parse_shape_keys:
  "zod_parse_shape shape data = Inr params \<Longrightarrow> (key, x) \<in> set params \<Longrightarrow>
     \<exists>schema v. (key, schema) \<in> set shape \<and> x = Some v \<and> zod_parse schema (map_of data key) = Inr (Some v)"
proof (induction shape arbitrary: params)
  case Nil
  then show ?case by simp
next
  case (Cons p shape)
  obtain k s where p: "p = (k, s)" by (cases p)
  from Cons.prems(1) p obtain r rest where
    r: "zod_parse s (map_of data k) = Inr r" and rest: "zod_parse_shape shape data = Inr rest"
    and params: "params = (case r of None \<Rightarrow> rest | Some v \<Rightarrow> (k, Some v) # rest)"
    by (auto split: sum.splits option.splits)
  show ?case
  proof (cases "(key, x) \<in> set rest")
    case True
    from Cons.IH [OF rest True] p show ?thesis by auto
  next
    case False
    with Cons.prems(2) params obtain v where "r = Some v" "key = k" "x = Some v"
      by (auto split: option.splits)
    with r p show ?thesis by auto
  qed
qed

lemma zod_parse_shape_distinct:
  "zod_parse_shape shape data = Inr params \<Longrightarrow> distinct (map fst shape) \<Longrightarrow> distinct (map fst params)"
proof (induction shape arbitrary: params)
  case Nil
  then show ?case by simp
next
  case (Cons p shape)
  obtain k s where p: "p = (k, s)" by (cases p)
  from Cons.prems(1) p obtain r rest where
    r: "zod_parse s (map_of data k) = Inr r" and rest: "zod_parse_shape shape data = Inr rest"
    and params: "params = (case r of None \<Rightarrow> rest | Some v \<Rightarrow> (k, Some v) # rest)"
    by (auto split: sum.splits option.splits)
  from Cons.prems(2) p have d: "distinct (map fst shape)" and k: "k \<notin> fst ` set shape" by auto
  have "k \<notin> fst ` set rest"
  proof
    assume "k \<in> fst ` set rest"
    then obtain x where "(k, x) \<in> set rest" by auto
    from zod_parse_shape_keys [OF rest this] k show False by force
  qed
  with Cons.IH [OF rest d] params show ?case by (auto split: option.splits)
qed

lemma getLifelogsSchema_distinct: "distinct (map fst getLifelogsSchema)"
  by (simp add: getLifelogsSchema_def)

lemma direction_schema:
  "zod_parse (ZDefault (ZOptional (ZEnum [''asc'', ''desc''])) (JStr ''desc'')) v = Inr r \<Longrightarrow>
     (v = None \<and> r = Some (JStr ''desc'')) \<or> (v \<noteq> None \<and> r = v \<and> (v = Some (JStr ''asc'') \<or> v = Some (JStr ''desc'')))"
  by (auto split: option.splits json.splits if_splits)

lemma flag_schema:
  "zod_parse (ZDefault (ZOptional ZBoolean) (JBool True)) v = Inr r \<Longrightarrow>
     (v = None \<and> r = Some (JBool True)) \<or> (r = v \<and> (\<exists>b. v = Some (JBool b)))"
  by (auto split: option.splits json.splits if_splits)

lemma params_direction:
  assumes "zod_object_parse getLifelogsSchema (JObj data) = Inr params"
  shows "\<exists>x. (''direction'', Some x) \<in> set params \<and> (x = JStr ''asc'' \<or> x = JStr ''desc'')
            \<and> (case map_of data ''direction'' of None \<Rightarrow> x = JStr ''desc'' | Some v \<Rightarrow> v = x)"
proof -
  from assms have s: "zod_parse_shape getLifelogsSchema data = Inr params"
    by (simp add: zod_object_parse_def)
  have "(''direction'', ZDefault (ZOptional (ZEnum [''asc'', ''desc''])) (JStr ''desc'')) \<in> set getLifelogsSchema"
    by (simp add: getLifelogsSchema_def)
  from zod_parse_shape_mem [OF s this] obtain r where
    r: "zod_parse (ZDefault (ZOptional (ZEnum [''asc'', ''desc''])) (JStr ''desc'')) (map_of data ''direction'') = Inr r"
    and m: "\<forall>v. r = Some v \<longrightarrow> (''direction'', Some v) \<in> set params" by blast
  from direction_schema [OF r] m show ?thesis by (auto split: option.splits)
qed

lemma params_flag:
  assumes "zod_object_parse getLifelogsSchema (JObj data) = Inr params"
    and "key = ''includeMarkdown'' \<or> key = ''includeHeadings''"
  shows "\<exists>b. (key, Some (JBool b)) \<in> set params
            \<and> (case map_of data key of None \<Rightarrow> b = True | Some v \<Rightarrow> v = JBool b)"
proof -
  from assms have s: "zod_parse_shape getLifelogsSchema data = Inr params"
    by (simp add: zod_object_parse_def)
  from assms(2) have "(key, ZDefault (ZOptional ZBoolean) (JBool True)) \<in> set getLifelogsSchema"
    by (auto simp: getLifelogsSchema_def)
  from zod_parse_shape_mem [OF s this] obtain r where
    r: "zod_parse (ZDefault (ZOptional ZBoolean) (JBool True)) (map_of data key) = Inr r"
    and m: "\<forall>v. r = Some v \<longrightarrow> (key, Some v) \<in> set params" by blast
  from flag_schema [OF r] show ?thesis
  proof
    assume "map_of data key = None \<and> r = Some (JBool True)"
    with m show ?thesis by auto
  next
    assume "r = map_of data key \<and> (\<exists>b. map_of data key = Some (JBool b))"
    then obtain b where "map_of data key = Some (JBool b)" "r = Some (JBool b)" by auto
    with m show ?thesis by auto
  qed
qed

lemma params_distinct:
  assumes "zod_object_parse getLifelogsSchema (JObj data) = Inr params"
  shows "distinct (map fst params)"
proof -
  from assms have "zod_parse_shape getLifelogsSchema data = Inr params"
    by (simp add: zod_object_parse_def)
  then show ?thesis by (rule zod_parse_shape_distinct) (rule getLifelogsSchema_distinct)
qed

text \<open>
  C5. When the arguments validate, \<^verbatim>\<open>direction\<close> is \<^verbatim>\<open>desc\<close> if the caller left it
  out and otherwise the caller's value, which is \<^verbatim>\<open>asc\<close> or \<^verbatim>\<open>desc\<close>;
  \<^verbatim>\<open>includeMarkdown\<close> and \<^verbatim>\<open>includeHeadings\<close> are true if left out and otherwise
  the caller's boolean. Arguments whose \<^verbatim>\<open>direction\<close> is any other value do not
  validate.
\<close>

theorem getLifelogsSchema_defaults:
  "(\<forall>params. zod_object_parse getLifelogsSchema (JObj data) = Inr params \<longrightarrow>
      (case map_of data ''direction'' of
         None \<Rightarrow> map_of params ''direction'' = Some (Some (JStr ''desc''))
       | Some v \<Rightarrow> (v = JStr ''asc'' \<or> v = JStr ''desc'') \<and> map_of params ''direction'' = Some (Some v))
    \<and> (case map_of data ''includeMarkdown'' of
         None \<Rightarrow> map_of params ''includeMarkdown'' = Some (Some (JBool True))
       | Some v \<Rightarrow> (\<exists>b. v = JBool b) \<and> map_of params ''includeMarkdown'' = Some (Some v))
    \<and> (case map_of data ''includeHeadings'' of
         None \<Rightarrow> map_of params ''includeHeadings'' = Some (Some (JBool True))
       | Some v \<Rightarrow> (\<exists>b. v = JBool b) \<and> map_of params ''includeHeadings'' = Some (Some v)))
   \<and> (\<forall>v. map_of data ''direction'' = Some v \<and> v \<noteq> JStr ''asc'' \<and> v \<noteq> JStr ''desc'' \<longrightarrow>
          (\<exists>e. zod_object_parse getLifelogsSchema (JObj data) = Inl e))"
proof -
  have main: "(case map_of data ''direction'' of
         None \<Rightarrow> map_of params ''direction'' = Some (Some (JStr ''desc''))
       | Some v \<Rightarrow> (v = JStr ''asc'' \<or> v = JStr ''desc'') \<and> map_of params ''direction'' = Some (Some v))
    \<and> (case map_of data ''includeMarkdown'' of
         None \<Rightarrow> map_of params ''includeMarkdown'' = Some (Some (JBool True))
       | Some v \<Rightarrow> (\<exists>b. v = JBool b) \<and> map_of params ''includeMarkdown'' = Some (Some v))
    \<and> (case map_of data ''includeHeadings'' of
         None \<Rightarrow> map_of params ''includeHeadings'' = Some (Some (JBool True))
       | Some v \<Rightarrow> (\<exists>b. v = JBool b) \<and> map_of params ''includeHeadings'' = Some (Some v))"
    if p: "zod_object_parse getLifelogsSchema (JObj data) = Inr params" for params
  proof -
    note d = params_distinct [OF p]
    from params_direction [OF p] obtain x where
      x: "(''direction'', Some x) \<in> set params" "x = JStr ''asc'' \<or> x = JStr ''desc''"
        "case map_of data ''direction'' of None \<Rightarrow> x = JStr ''desc'' | Some v \<Rightarrow> v = x"
      by blast
    from params_flag [OF p, of "''includeMarkdown''"] obtain b where
      b: "(''includeMarkdown'', Some (JBool b)) \<in> set params"
        "case map_of data ''includeMarkdown'' of None \<Rightarrow> b = True | Some v \<Rightarrow> v = JBool b"
      by blast
    from params_flag [OF p, of "''includeHeadings''"] obtain c where
      c: "(''includeHeadings'', Some (JBool c)) \<in> set params"
        "case map_of data ''includeHeadings'' of None \<Rightarrow> c = True | Some v \<Rightarrow> v = JBool c"
      by blast
    have 1: "map_of params ''direction'' = Some (Some x)"
      using d x(1) by (rule map_of_is_SomeI)
    have 2: "map_of params ''includeMarkdown'' = Some (Some (JBool b))"
      using d b(1) by (rule map_of_is_SomeI)
    have 3: "map_of params ''includeHeadings'' = Some (Some (JBool c))"
      using d c(1) by (rule map_of_is_SomeI)
    from x(2,3) 1 have A: "case map_of data ''direction'' of
         None \<Rightarrow> map_of params ''direction'' = Some (Some (JStr ''desc''))
       | Some v \<Rightarrow> (v = JStr ''asc'' \<or> v = JStr ''desc'') \<and> map_of params ''direction'' = Some (Some v)"
      by (simp split: option.splits)
    from b(2) 2 have B: "case map_of data ''includeMarkdown'' of
         None \<Rightarrow> map_of params ''includeMarkdown'' = Some (Some (JBool True))
       | Some v \<Rightarrow> (\<exists>b. v = JBool b) \<and> map_of params ''includeMarkdown'' = Some (Some v)"
      by (simp split: option.splits)
    from c(2) 3 have C: "case map_of data ''includeHeadings'' of
         None \<Rightarrow> map_of params ''includeHeadings'' = Some (Some (JBool True))
       | Some v \<Rightarrow> (\<exists>b. v = JBool b) \<and> map_of params ''includeHeadings'' = Some (Some v)"
      by (simp split: option.splits)
    from A B C show ?thesis by blast
  qed
  have reject: "\<exists>e. zod_object_parse getLifelogsSchema (JObj data) = Inl e"
    if v: "map_of data ''direction'' = Some v \<and> v \<noteq> JStr ''asc'' \<and> v \<noteq> JStr ''desc''" for v
  proof (cases "zod_object_parse getLifelogsSchema (JObj data)")
    case (Inl e)
    then show ?thesis by blast
  next
    case (Inr params)
    from main [OF Inr] v show ?thesis by simp
  qed
  from main reject show ?thesis by blast
qed

theorem getLifelogsSchema_defaults_witness:
  "zod_object_parse getLifelogsSchema (JObj []) =
     Inr [(''direction'', Some (JStr ''desc'')), (''includeMarkdown'', Some (JBool True)),
          (''includeHeadings'', Some (JBool True))]
   \<and> zod_object_parse getLifelogsSchema (JObj [(''direction'', JStr ''asc''), (''includeHeadings'', JBool False)]) =
     Inr [(''direction'', Some (JStr ''asc'')), (''includeMarkdown'', Some (JBool True)),
          (''includeHeadings'', Some (JBool False))]
   \<and> (\<exists>e. zod_object_parse getLifelogsSchema (JObj [(''direction'', JStr ''up'')]) = Inl e)"
proof -
  have a: "zod_object_parse getLifelogsSchema (JObj []) =
     Inr [(''direction'', Some (JStr ''desc'')), (''includeMarkdown'', Some (JBool True)),
          (''includeHeadings'', Some (JBool True))]"
    by code_simp
  have b: "zod_object_parse getLifelogsSchema (JObj [(''direction'', JStr ''asc''), (''includeHeadings'', JBool False)]) =
     Inr [(''direction'', Some (JStr ''asc'')), (''includeMarkdown'', Some (JBool True)),
          (''includeHeadings'', Some (JBool False))]"
    by code_simp
  have c: "\<exists>e. zod_object_parse getLifelogsSchema (JObj [(''direction'', JStr ''up'')]) = Inl e"
    using getLifelogsSchema_defaults [of "[(''direction'', JStr ''up'')]"] by simp
  from a b c show ?thesis by blast
qed

text \<open>
  C9, as the code has it. The tool runs the handler on the validated parameters, and the
  handler meets the network through one request only. The query string of that request
  always has the keys \<^verbatim>\<open>direction\<close>, \<^verbatim>\<open>includeMarkdown\<close> and
  \<^verbatim>\<open>includeHeadings\<close>, with the values \<^verbatim>\<open>desc\<close>, \<^verbatim>\<open>true\<close> and \<^verbatim>\<open>true\<close>
  where the caller left them out; and when the caller left at least one of the three
  out, the query string has a key that the caller did not supply.
\<close>

theorem getLifelogs_query_defaults:
  assumes "zod_object_parse getLifelogsSchema (JObj data) = Inr params"
  shows "req_url (lifelogs_request key params) =
           LIMITLESS_API_BASE @ ''/v1/lifelogs'' @ ''?'' @ URLSearchParams_toString (append_params [] params)
    \<and> {''direction'', ''includeMarkdown'', ''includeHeadings''}
         \<subseteq> fst ` set (parse_urlencoded (URLSearchParams_toString (append_params [] params)))
    \<and> (map_of data ''direction'' = None \<longrightarrow>
         (''direction'', ''desc'') \<in> set (parse_urlencoded (URLSearchParams_toString (append_params [] params))))
    \<and> (map_of data ''includeMarkdown'' = None \<longrightarrow>
         (''includeMarkdown'', ''true'') \<in> set (parse_urlencoded (URLSearchParams_toString (append_params [] params))))
    \<and> (map_of data ''includeHeadings'' = None \<longrightarrow>
         (''includeHeadings'', ''true'') \<in> set (parse_urlencoded (URLSearchParams_toString (append_params [] params))))
    \<and> (\<not> {''direction'', ''includeMarkdown'', ''includeHeadings''} \<subseteq> fst ` set data \<longrightarrow>
         \<not> fst ` set (parse_urlencoded (URLSearchParams_toString (append_params [] params))) \<subseteq> fst ` set data)
    \<and> getLifelogs_tool fetch JSON_parse key (JObj data) = getLifelogs_handler fetch JSON_parse key params
    \<and> (\<forall>fetch'. fetch' (lifelogs_request key params) = fetch (lifelogs_request key params) \<longrightarrow>
          getLifelogs_handler fetch' JSON_parse key params = getLifelogs_handler fetch JSON_parse key params)"
proof -
  let ?fields = "parse_urlencoded (URLSearchParams_toString (append_params [] params))"
  have f: "?fields = append_params [] params" by (rule parse_urlencoded_toString)
  from params_direction [OF assms] obtain x where
    x: "(''direction'', Some x) \<in> set params" "x = JStr ''asc'' \<or> x = JStr ''desc''"
      "case map_of data ''direction'' of None \<Rightarrow> x = JStr ''desc'' | Some v \<Rightarrow> v = x"
    by blast
  from params_flag [OF assms, of "''includeMarkdown''"] obtain b where
    b: "(''includeMarkdown'', Some (JBool b)) \<in> set params"
      "case map_of data ''includeMarkdown'' of None \<Rightarrow> b = True | Some v \<Rightarrow> v = JBool b"
    by blast
  from params_flag [OF assms, of "''includeHeadings''"] obtain c where
    c: "(''includeHeadings'', Some (JBool c)) \<in> set params"
      "case map_of data ''includeHeadings'' of None \<Rightarrow> c = True | Some v \<Rightarrow> v = JBool c"
    by blast
  from x(1,2) have fx: "(''direction'', js_String x) \<in> set ?fields"
    unfolding f append_params_mem by blast
  from b(1) have fb: "(''includeMarkdown'', js_String (JBool b)) \<in> set ?fields"
    unfolding f append_params_mem by blast
  from c(1) have fc: "(''includeHeadings'', js_String (JBool c)) \<in> set ?fields"
    unfolding f append_params_mem by blast
  have keys: "{''direction'', ''includeMarkdown'', ''includeHeadings''} \<subseteq> fst ` set ?fields"
    using fx fb fc by force
  have 1: "req_url (lifelogs_request key params) =
           LIMITLESS_API_BASE @ ''/v1/lifelogs'' @ ''?'' @ URLSearchParams_toString (append_params [] params)"
    by (simp add: lifelogs_request_def request_url_def)
  have 2: "map_of data ''direction'' = None \<longrightarrow> (''direction'', ''desc'') \<in> set ?fields"
    using fx x(3) by auto
  have 3: "map_of data ''includeMarkdown'' = None \<longrightarrow> (''includeMarkdown'', ''true'') \<in> set ?fields"
    using fb b(2) by auto
  have 4: "map_of data ''includeHeadings'' = None \<longrightarrow> (''includeHeadings'', ''true'') \<in> set ?fields"
    using fc c(2) by auto
  have 5: "\<not> {''direction'', ''includeMarkdown'', ''includeHeadings''} \<subseteq> fst ` set data \<longrightarrow>
         \<not> fst ` set ?fields \<subseteq> fst ` set data"
  proof
    assume n: "\<not> {''direction'', ''includeMarkdown'', ''includeHeadings''} \<subseteq> fst ` set data"
    show "\<not> fst ` set ?fields \<subseteq> fst ` set data"
    proof
      assume "fst ` set ?fields \<subseteq> fst ` set data"
      with keys have "{''direction'', ''includeMarkdown'', ''includeHeadings''} \<subseteq> fst ` set data"
        by (rule subset_trans)
      with n show False by (rule notE)
    qed
  qed
  have 6: "getLifelogs_tool fetch JSON_parse key (JObj data) = getLifelogs_handler fetch JSON_parse key params"
    using assms by (simp add: getLifelogs_tool_def)
  have 7: "\<forall>fetch'. fetch' (lifelogs_request key params) = fetch (lifelogs_request key params) \<longrightarrow>
          getLifelogs_handler fetch' JSON_parse key params = getLifelogs_handler fetch JSON_parse key params"
    by (simp add: getLifelogs_handler_def makeLimitlessRequest_def lifelogs_request_def)
  show ?thesis by (intro conjI 1 keys 2 3 4 5 6 7)
qed

theorem getLifelogs_query_defaults_witness:
  "zod_object_parse getLifelogsSchema (JObj [(''limit'', JNum 3)]) =
     Inr [(''direction'', Some (JStr ''desc'')), (''includeMarkdown'', Some (JBool True)),
          (''includeHeadings'', Some (JBool True)), (''limit'', Some (JNum 3))]
   \<and> req_url (lifelogs_request ''k''
        [(''direction'', Some (JStr ''desc'')), (''includeMarkdown'', Some (JBool True)),
         (''includeHeadings'', Some (JBool True)), (''limit'', Some (JNum 3))]) =
     ''https://api.limitless.ai/v1/lifelogs?direction=desc&includeMarkdown=true&includeHeadings=true&limit=3''
   \<and> (''direction'', ''desc'') \<in> set (parse_urlencoded ''direction=desc&includeMarkdown=true&includeHeadings=true&limit=3'')"
proof -
  let ?ps = "[(''direction'', Some (JStr ''desc'')), (''includeMarkdown'', Some (JBool True)),
          (''includeHeadings'', Some (JBool True)), (''limit'', Some (JNum 3))]"
  have a: "zod_object_parse getLifelogsSchema (JObj [(''limit'', JNum 3)]) = Inr ?ps"
    by code_simp
  have q: "URLSearchParams_toString (append_params [] ?ps) =
             ''direction=desc&includeMarkdown=true&includeHeadings=true&limit=3''"
    by code_simp
  from getLifelogs_query_defaults [OF a, of "''k''"] a q show ?thesis
    by (simp add: LIMITLESS_API_BASE_def)
qed

text \<open>
  A caller who supplies all three keys gets a query string of the supplied fields only.
\<close>

theorem getLifelogs_query_only_supplied:
  "zod_object_parse getLifelogsSchema
     (JObj [(''direction'', JStr ''asc''), (''includeMarkdown'', JBool False), (''includeHeadings'', JBool False)]) =
     Inr [(''direction'', Some (JStr ''asc'')), (''includeMarkdown'', Some (JBool False)),
          (''includeHeadings'', Some (JBool False))]
   \<and> req_url (lifelogs_request ''k''
        [(''direction'', Some (JStr ''asc'')), (''includeMarkdown'', Some (JBool False)),
         (''includeHeadings'', Some (JBool False))]) =
     ''https://api.limitless.ai/v1/lifelogs?direction=asc&includeMarkdown=false&includeHeadings=false''
   \<and> map fst (parse_urlencoded ''direction=asc&includeMarkdown=false&includeHeadings=false'') =
     map fst [(''direction'', JStr ''asc''), (''includeMarkdown'', JBool False), (''includeHeadings'', JBool False)]"
  by code_simp

subsection \<open>The interactive loop\<close>

lemma interactive_loop_step:
  "toLowerCase toolName \<noteq> ''quit'' \<Longrightarrow>
   interactive_loop JSON_parse callTool n (toolName # paramsInput # rest) =
     (case JSON_parse (js_or paramsInput ''{}'') of
        Inl e \<Rightarrow>
          ([Question tool_prompt, Question params_prompt,
            ConsoleError [Str ''Invalid JSON. Try again.'']]
             @ fst (interactive_loop JSON_parse callTool n rest),
           snd (interactive_loop JSON_parse callTool n rest))
      | Inr params \<Rightarrow>
          ([Question tool_prompt, Question params_prompt, CallTool toolName params,
            (case callTool n toolName params of
               Inr response \<Rightarrow> ConsoleLog [Str ''Response:'', Str (JSON_stringify 2 response)]
             | Inl error \<Rightarrow> ConsoleError [Str ''Error:'', Str (message error)])]
             @ fst (interactive_loop JSON_parse callTool (Suc n) rest),
           snd (interactive_loop JSON_parse callTool (Suc n) rest)))"
  by (simp add: case_prod_beta split: sum.split)

lemma interactive_loop_quit:
  "toLowerCase toolName = ''quit'' \<Longrightarrow>
   interactive_loop JSON_parse callTool n (toolName # rest) = ([Question tool_prompt], Quit)"
  by (cases rest) simp_all

lemma interactive_loop_result:
  "snd (interactive_loop JSON_parse callTool n inputs) =
     (if reaches_quit inputs then Quit else InputEnded)"
proof (induction JSON_parse callTool n inputs rule: interactive_loop.induct)
  case (1 JSON_parse callTool n)
  show ?case by simp
next
  case (2 JSON_parse callTool n toolName)
  show ?case by simp
next
  case (3 JSON_parse callTool n toolName paramsInput rest)
  show ?case
  proof (cases "toLowerCase toolName = ''quit''")
    case True
    then show ?thesis by (simp add: interactive_loop_quit)
  next
    case False
    show ?thesis
    proof (cases "JSON_parse (js_or paramsInput ''{}'')")
      case (Inl e)
      from "3.IH"(1) [OF False Inl] False Inl show ?thesis
        by (simp only: interactive_loop_step [OF False] reaches_quit.simps sum.case snd_conv) simp
    next
      case (Inr params)
      from "3.IH"(2) [OF False Inr] False Inr show ?thesis
        by (simp only: interactive_loop_step [OF False] reaches_quit.simps sum.case snd_conv) simp
    qed
  qed
qed

lemma interactive_loop_starts:
  "\<exists>evs. fst (interactive_loop JSON_parse callTool n inputs) = Question tool_prompt # evs"
proof (cases inputs)
  case Nil
  then show ?thesis by simp
next
  case (Cons toolName rest)
  show ?thesis
  proof (cases "toLowerCase toolName = ''quit''")
    case True
    with Cons show ?thesis by (simp add: interactive_loop_quit)
  next
    case False
    show ?thesis
    proof (cases rest)
      case Nil
      with Cons False show ?thesis by simp
    next
      case (Cons paramsInput rest')
      with \<open>inputs = toolName # rest\<close> show ?thesis
        by (simp only: interactive_loop_step [OF False] split: sum.split) simp
    qed
  qed
qed

lemma interactive_loop_no_close:
  "ClientClose \<notin> set (fst (interactive_loop JSON_parse callTool n inputs))"
proof (induction JSON_parse callTool n inputs rule: interactive_loop.induct)
  case (1 JSON_parse callTool n)
  show ?case by simp
next
  case (2 JSON_parse callTool n toolName)
  show ?case by simp
next
  case (3 JSON_parse callTool n toolName paramsInput rest)
  show ?case
  proof (cases "toLowerCase toolName = ''quit''")
    case True
    then show ?thesis by (simp add: interactive_loop_quit)
  next
    case False
    show ?thesis
    proof (cases "JSON_parse (js_or paramsInput ''{}'')")
      case (Inl e)
      from "3.IH"(1) [OF False Inl] Inl show ?thesis
        by (simp only: interactive_loop_step [OF False] sum.case fst_conv) simp
    next
      case (Inr params)
      from "3.IH"(2) [OF False Inr] Inr show ?thesis
        by (simp only: interactive_loop_step [OF False] sum.case fst_conv) (simp split: sum.split)
    qed
  qed
qed

subsection \<open>Startup\<close>

text \<open>
  C6. When the environment has no \<^verbatim>\<open>LIMITLESS_API_KEY\<close>, the process prints the
  diagnostic on the error stream and exits with status 1, and does nothing else,
  whatever its arguments: no tool is registered, no server is connected and no tool is
  called.
\<close>

theorem main_missing_key:
  assumes "env ''LIMITLESS_API_KEY'' = None"
  shows "main env argv server_connect JSON_parse cenv inputs =
           [ConsoleError [Str ''Missing LIMITLESS_API_KEY in environment variables''], ProcessExit 1]
    \<and> ServerConnected \<notin> set (main env argv server_connect JSON_parse cenv inputs)
    \<and> (\<forall>name. ToolRegistered name \<notin> set (main env argv server_connect JSON_parse cenv inputs))
    \<and> (\<forall>name args. CallTool name args \<notin> set (main env argv server_connect JSON_parse cenv inputs))"
  using assms by (simp add: main_def)

theorem main_missing_key_witness:
  "main Map.empty [''node'', ''build/index.js'', ''server''] (Inr ()) stub_JSON_parse
     \<lparr>connect_result = Inr \<lparr>transport_open = True, subprocess_running = True\<rparr>,
      listTools_result = Inr [''getLifelogs''],
      callTool_result = (\<lambda>n name args. Inr JNull)\<rparr>
     \<lparr>input_lines = [], closed_before_question = False\<rparr> =
     [ConsoleError [Str ''Missing LIMITLESS_API_KEY in environment variables''], ProcessExit 1]"
  using main_missing_key [of Map.empty "[''node'', ''build/index.js'', ''server'']" "Inr ()" stub_JSON_parse
      "\<lparr>connect_result = Inr \<lparr>transport_open = True, subprocess_running = True\<rparr>,
      listTools_result = Inr [''getLifelogs''],
      callTool_result = (\<lambda>n name args. Inr JNull)\<rparr>"
      "\<lparr>input_lines = [], closed_before_question = False\<rparr>"]
  by simp

subsection \<open>Arguments that are not JSON\<close>

text \<open>
  C7, as the code has it. For a tool name other than \<^verbatim>\<open>quit\<close> and an arguments line
  that is not empty and that the JSON parser rejects, the iteration prompts twice,
  reports \<^verbatim>\<open>Invalid JSON. Try again.\<close> and sends no tool call (the count of calls is
  unchanged); the loop then goes on with the rest of the input, starting with the prompt
  for the tool name.
\<close>

theorem interactive_invalid_json:
  assumes "toLowerCase toolName \<noteq> ''quit''"
    and "paramsInput \<noteq> []"
    and "JSON_parse paramsInput = Inl e"
  shows "interactive_loop JSON_parse callTool n (toolName # paramsInput # rest) =
           ([Question tool_prompt, Question params_prompt, ConsoleError [Str ''Invalid JSON. Try again.'']]
              @ fst (interactive_loop JSON_parse callTool n rest),
            snd (interactive_loop JSON_parse callTool n rest))
    \<and> (\<exists>evs. fst (interactive_loop JSON_parse callTool n rest) = Question tool_prompt # evs)"
proof
  from assms show "interactive_loop JSON_parse callTool n (toolName # paramsInput # rest) =
           ([Question tool_prompt, Question params_prompt, ConsoleError [Str ''Invalid JSON. Try again.'']]
              @ fst (interactive_loop JSON_parse callTool n rest),
            snd (interactive_loop JSON_parse callTool n rest))"
    by (simp only: interactive_loop_step [OF assms(1)]) (simp add: js_or_def)
  show "\<exists>evs. fst (interactive_loop JSON_parse callTool n rest) = Question tool_prompt # evs"
    by (rule interactive_loop_starts)
qed

theorem interactive_invalid_json_witness:
  "interactive_loop stub_JSON_parse (\<lambda>n name args. Inr JNull) 0 [''getLifelogs'', ''not-json'', ''quit''] =
     ([Question tool_prompt, Question params_prompt, ConsoleError [Str ''Invalid JSON. Try again.''],
       Question tool_prompt], Quit)"
proof -
  have q: "toLowerCase ''getLifelogs'' \<noteq> ''quit''" by code_simp
  have l: "toLowerCase ''quit'' = ''quit''" by code_simp
  have p: "stub_JSON_parse ''not-json'' = Inl (Error ''Unexpected end of JSON input'')"
    by (simp add: stub_JSON_parse_def)
  have ne: "''not-json'' \<noteq> []" by simp
  from interactive_invalid_json [where JSON_parse = stub_JSON_parse and toolName = "''getLifelogs''"
      and paramsInput = "''not-json''" and callTool = "\<lambda>n name args. Inr JNull" and n = 0
      and rest = "[''quit'']", OF q ne p] l
  show ?thesis by (simp add: interactive_loop_quit)
qed

text \<open>
  The empty line is not JSON, and the tool is called all the same, with the empty
  object.
\<close>

theorem empty_arguments_line_calls_tool:
  "stub_JSON_parse [] = Inl (Error ''Unexpected end of JSON input'')
   \<and> interactive_loop stub_JSON_parse (\<lambda>n name args. Inr JNull) 0 [''getLifelogs'', [], ''quit''] =
     ([Question tool_prompt, Question params_prompt, CallTool ''getLifelogs'' (JObj []),
       ConsoleLog [Str ''Response:'', Str ''null''], Question tool_prompt], Quit)"
proof -
  have q: "toLowerCase ''getLifelogs'' \<noteq> ''quit''" by code_simp
  have l: "toLowerCase ''quit'' = ''quit''" by code_simp
  have s: "JSON_stringify 2 JNull = ''null''" by (simp add: JSON_stringify_def)
  have "interactive_loop stub_JSON_parse (\<lambda>n name args. Inr JNull) 0 [''quit''] = ([Question tool_prompt], Quit)"
    using l by (rule interactive_loop_quit)
  with s show ?thesis
    by (simp only: interactive_loop_step [OF q]) (simp add: stub_JSON_parse_def js_or_def)
qed

text \<open>
  C10. For a tool name other than \<^verbatim>\<open>quit\<close>, the loop does on an empty arguments line
  what it does on the line \<^verbatim>\<open>{}\<close>; with a parser that reads \<^verbatim>\<open>{}\<close> as the empty
  object, the tool is called with the empty object, and no invalid JSON is reported.
\<close>

theorem interactive_empty_line:
  assumes "toLowerCase toolName \<noteq> ''quit''"
  shows "interactive_loop JSON_parse callTool n (toolName # [] # rest) =
           interactive_loop JSON_parse callTool n (toolName # ''{}'' # rest)
    \<and> (JSON_parse ''{}'' = Inr (JObj []) \<longrightarrow>
         (\<exists>out evs. fst (interactive_loop JSON_parse callTool n (toolName # [] # rest)) =
             [Question tool_prompt, Question params_prompt, CallTool toolName (JObj []), out] @ evs
           \<and> out \<noteq> ConsoleError [Str ''Invalid JSON. Try again.'']))"
proof
  from assms show "interactive_loop JSON_parse callTool n (toolName # [] # rest) =
           interactive_loop JSON_parse callTool n (toolName # ''{}'' # rest)"
    by (simp only: interactive_loop_step [OF assms] js_or_def) simp
  show "JSON_parse ''{}'' = Inr (JObj []) \<longrightarrow>
         (\<exists>out evs. fst (interactive_loop JSON_parse callTool n (toolName # [] # rest)) =
             [Question tool_prompt, Question params_prompt, CallTool toolName (JObj []), out] @ evs
           \<and> out \<noteq> ConsoleError [Str ''Invalid JSON. Try again.''])"
  proof
    assume "JSON_parse ''{}'' = Inr (JObj [])"
    with assms show "\<exists>out evs. fst (interactive_loop JSON_parse callTool n (toolName # [] # rest)) =
             [Question tool_prompt, Question params_prompt, CallTool toolName (JObj []), out] @ evs
           \<and> out \<noteq> ConsoleError [Str ''Invalid JSON. Try again.'']"
      by (simp only: interactive_loop_step [OF assms] js_or_def) (simp split: sum.split)
  qed
qed

theorem interactive_empty_line_witness:
  "interactive_loop stub_JSON_parse (\<lambda>n name args. Inl (Error ''Request timed out'')) 0
      [''getLifelogs'', [], ''quit''] =
   interactive_loop stub_JSON_parse (\<lambda>n name args. Inl (Error ''Request timed out'')) 0
      [''getLifelogs'', ''{}'', ''quit'']
   \<and> (\<exists>out evs. fst (interactive_loop stub_JSON_parse (\<lambda>n name args. Inl (Error ''Request timed out'')) 0
          [''getLifelogs'', [], ''quit'']) =
        [Question tool_prompt, Question params_prompt, CallTool ''getLifelogs'' (JObj []), out] @ evs)"
proof -
  have q: "toLowerCase ''getLifelogs'' \<noteq> ''quit''" by code_simp
  have p: "stub_JSON_parse ''{}'' = Inr (JObj [])" by (simp add: stub_JSON_parse_def)
  from interactive_empty_line [where JSON_parse = stub_JSON_parse and toolName = "''getLifelogs''"
      and callTool = "\<lambda>n name args. Inl (Error ''Request timed out'')" and n = 0
      and rest = "[''quit'']", OF q] p
  show ?thesis by blast
qed

subsection \<open>Closing the session\<close>

lemma client_close_twice: "client_close (snd (client_close s)) = (Inr (), snd (client_close s))"
  by (simp add: client_close_def)

lemma client_close_result: "client_close s = (Inr (), snd (client_close s))"
  by (simp add: client_close_def)

text \<open>
  C8, as the code has it. Once the client has connected and listed the tools: in the
  client mode, whatever the outcome of the tool call, the call is followed by one close
  of the session, which is the last thing done; in the interactive mode, whatever the
  outcomes of the tool calls, if the user quits, the run ends with the close of the
  readline interface and then one close of the session. When connecting or listing the
  tools fails, either mode fails with that error, having done nothing, and the session
  is not closed. The close releases the transport and terminates the subprocess, and a
  second close changes nothing and raises no error.
\<close>

theorem client_close_runs:
  "(\<forall>s tools. connect_result env = Inr s \<and> listTools_result env = Inr tools \<longrightarrow>
       (\<exists>evs. fst (runClient env) = evs @ [ClientClose] \<and> ClientClose \<notin> set evs
            \<and> CallTool ''getLifelogs'' (JObj []) \<in> set evs)
     \<and> snd (runClient env) = Inr (snd (client_close s))
     \<and> (reaches_quit (input_lines inputs) \<longrightarrow>
          (\<exists>evs. fst (runInteractiveClient JSON_parse env inputs) = evs @ [ReadlineClose, ClientClose]
             \<and> ClientClose \<notin> set evs)
          \<and> snd (runInteractiveClient JSON_parse env inputs) = Some (Inr (snd (client_close s)))))
   \<and> (\<forall>e. connect_result env = Inl e \<or> (\<exists>s. connect_result env = Inr s \<and> listTools_result env = Inl e) \<longrightarrow>
         runClient env = ([], Inl e)
       \<and> runInteractiveClient JSON_parse env inputs = ([], Some (Inl e))
       \<and> ClientClose \<notin> set (fst (runClient env))
       \<and> ClientClose \<notin> set (fst (runInteractiveClient JSON_parse env inputs)))
   \<and> (\<forall>s. \<not> transport_open (snd (client_close s))
          \<and> (transport_open s \<longrightarrow> \<not> subprocess_running (snd (client_close s)))
          \<and> client_close (snd (client_close s)) = (Inr (), snd (client_close s)))"
proof (intro conjI allI impI)
  fix s tools
  assume a: "connect_result env = Inr s \<and> listTools_result env = Inr tools"
  let ?connected = "[ConsoleLog [Str ''Connected. Available tools:'', Names tools]]"
  let ?called = "(case callTool_result env 0 ''getLifelogs'' (JObj []) of
                         Inr response \<Rightarrow>
                           [CallTool ''getLifelogs'' (JObj []),
                            ConsoleLog [Str ''Response from getLifelogs:'', Str (JSON_stringify 2 response)]]
                       | Inl error \<Rightarrow>
                           [CallTool ''getLifelogs'' (JObj []),
                            ConsoleError [Str ''Error:'', Str (message error)]])"
  obtain s' where cc: "client_close s = (Inr (), s')" using client_close_result by blast
  have run: "runClient env = (?connected @ ?called @ [ClientClose], Inr (snd (client_close s)))"
    using a by (simp add: runClient_def Let_def cc)
  have "ClientClose \<notin> set (?connected @ ?called)" "CallTool ''getLifelogs'' (JObj []) \<in> set (?connected @ ?called)"
    by (simp_all split: sum.split)
  with run show "\<exists>evs. fst (runClient env) = evs @ [ClientClose] \<and> ClientClose \<notin> set evs
            \<and> CallTool ''getLifelogs'' (JObj []) \<in> set evs"
    by (intro exI [of _ "?connected @ ?called"]) simp
  from run show "snd (runClient env) = Inr (snd (client_close s))" by simp
  assume q: "reaches_quit (input_lines inputs)"
  let ?loop = "interactive_loop JSON_parse (callTool_result env) 0 (input_lines inputs)"
  from q have r: "snd ?loop = Quit" by (simp add: interactive_loop_result)
  then have l: "?loop = (fst ?loop, Quit)" by (metis prod.collapse)
  have irun: "runInteractiveClient JSON_parse env inputs =
               (?connected @ fst ?loop @ [ReadlineClose, ClientClose], Some (Inr (snd (client_close s))))"
    unfolding runInteractiveClient_def using a
    by (subst l) (simp add: Let_def cc)
  have "ClientClose \<notin> set (?connected @ fst ?loop @ [ReadlineClose])"
    using interactive_loop_no_close [of JSON_parse "callTool_result env" 0 "input_lines inputs"] by simp
  with irun show "\<exists>evs. fst (runInteractiveClient JSON_parse env inputs) = evs @ [ReadlineClose, ClientClose]
            \<and> ClientClose \<notin> set evs"
    by (intro exI [of _ "?connected @ fst ?loop"]) simp
  from irun show "snd (runInteractiveClient JSON_parse env inputs) = Some (Inr (snd (client_close s)))"
    by simp
next
  fix e
  assume f: "connect_result env = Inl e \<or> (\<exists>s. connect_result env = Inr s \<and> listTools_result env = Inl e)"
  from f show c: "runClient env = ([], Inl e)"
    by (auto simp: runClient_def)
  from f show i: "runInteractiveClient JSON_parse env inputs = ([], Some (Inl e))"
    by (auto simp: runInteractiveClient_def)
  from c show "ClientClose \<notin> set (fst (runClient env))" by simp
  from i show "ClientClose \<notin> set (fst (runInteractiveClient JSON_parse env inputs))" by simp
next
  fix s
  show "\<not> transport_open (snd (client_close s))" by (simp add: client_close_def)
  show "\<not> subprocess_running (snd (client_close s))" if "transport_open s"
    using that by (simp add: client_close_def)
  show "client_close (snd (client_close s)) = (Inr (), snd (client_close s))"
    by (rule client_close_twice)
qed

theorem client_close_runs_witness:
  "runClient \<lparr>connect_result = Inr \<lparr>transport_open = True, subprocess_running = True\<rparr>,
              listTools_result = Inr [''getLifelogs''],
              callTool_result = (\<lambda>n name args. Inl (Error ''Request timed out''))\<rparr> =
     ([ConsoleLog [Str ''Connected. Available tools:'', Names [''getLifelogs'']],
       CallTool ''getLifelogs'' (JObj []),
       ConsoleError [Str ''Error:'', Str ''Request timed out''],
       ClientClose],
      Inr \<lparr>transport_open = False, subprocess_running = False\<rparr>)
   \<and> runInteractiveClient stub_JSON_parse
        \<lparr>connect_result = Inr \<lparr>transport_open = True, subprocess_running = True\<rparr>,
         listTools_result = Inr [''getLifelogs''],
         callTool_result = (\<lambda>n name args. Inl (Error ''Request timed out''))\<rparr>
        \<lparr>input_lines = [''getLifelogs'', ''{}'', ''quit''], closed_before_question = False\<rparr> =
     ([ConsoleLog [Str ''Connected. Available tools:'', Names [''getLifelogs'']],
       Question tool_prompt, Question params_prompt,
       CallTool ''getLifelogs'' (JObj []),
       ConsoleError [Str ''Error:'', Str ''Request timed out''],
       Question tool_prompt, ReadlineClose, ClientClose],
      Some (Inr \<lparr>transport_open = False, subprocess_running = False\<rparr>))
   \<and> runClient \<lparr>connect_result = Inr \<lparr>transport_open = True, subprocess_running = True\<rparr>,
              listTools_result = Inl (Error ''Connection closed''),
              callTool_result = (\<lambda>n name args. Inr JNull)\<rparr> =
     ([], Inl (Error ''Connection closed''))
   \<and> client_close \<lparr>transport_open = False, subprocess_running = False\<rparr> =
     (Inr (), \<lparr>transport_open = False, subprocess_running = False\<rparr>)"
proof -
  let ?s = "\<lparr>transport_open = True, subprocess_running = True\<rparr>"
  let ?env = "\<lparr>connect_result = Inr ?s, listTools_result = Inr [''getLifelogs''],
              callTool_result = (\<lambda>n name args. Inl (Error ''Request timed out''))\<rparr>"
  let ?env' = "\<lparr>connect_result = Inr ?s, listTools_result = Inl (Error ''Connection closed''),
              callTool_result = (\<lambda>n name args. Inr JNull)\<rparr>"
  let ?in = "\<lparr>input_lines = [''getLifelogs'', ''{}'', ''quit''], closed_before_question = False\<rparr>"
  have c: "connect_result ?env = Inr ?s \<and> listTools_result ?env = Inr [''getLifelogs'']"
    by simp
  have c': "connect_result ?env' = Inl (Error ''Connection closed'')
      \<or> (\<exists>s. connect_result ?env' = Inr s \<and> listTools_result ?env' = Inl (Error ''Connection closed''))"
    by simp
  have q: "reaches_quit (input_lines ?in)" by code_simp
  have n: "toLowerCase ''getLifelogs'' \<noteq> ''quit''" by code_simp
  have l: "toLowerCase ''quit'' = ''quit''" by code_simp
  have cl: "snd (client_close ?s) = \<lparr>transport_open = False, subprocess_running = False\<rparr>"
    by (simp add: client_close_def)
  have loop: "interactive_loop stub_JSON_parse (\<lambda>n name args. Inl (Error ''Request timed out'')) 0
      [''getLifelogs'', ''{}'', ''quit''] =
      ([Question tool_prompt, Question params_prompt, CallTool ''getLifelogs'' (JObj []),
        ConsoleError [Str ''Error:'', Str ''Request timed out''], Question tool_prompt], Quit)"
    using interactive_loop_quit [OF l, of stub_JSON_parse "\<lambda>n name args. Inl (Error ''Request timed out'')" "Suc 0" "[]"]
    by (simp only: interactive_loop_step [OF n]) (simp add: stub_JSON_parse_def js_or_def)
  have f1: "fst (runClient ?env) =
     [ConsoleLog [Str ''Connected. Available tools:'', Names [''getLifelogs'']],
       CallTool ''getLifelogs'' (JObj []),
       ConsoleError [Str ''Error:'', Str ''Request timed out''],
       ClientClose]"
    by (simp add: runClient_def client_close_def)
  have f2: "fst (runInteractiveClient stub_JSON_parse ?env ?in) =
     [ConsoleLog [Str ''Connected. Available tools:'', Names [''getLifelogs'']],
       Question tool_prompt, Question params_prompt,
       CallTool ''getLifelogs'' (JObj []),
       ConsoleError [Str ''Error:'', Str ''Request timed out''],
       Question tool_prompt, ReadlineClose, ClientClose]"
    unfolding runInteractiveClient_def by (simp add: loop client_close_def del: interactive_loop.simps)
  note t = client_close_runs [where env = ?env and inputs = ?in and JSON_parse = stub_JSON_parse]
  from t c q have
    "snd (runClient ?env) = Inr (snd (client_close ?s))"
    "snd (runInteractiveClient stub_JSON_parse ?env ?in) = Some (Inr (snd (client_close ?s)))"
    by blast+
  moreover from t have "client_close (snd (client_close ?s)) = (Inr (), snd (client_close ?s))"
    by blast
  moreover from client_close_runs [where env = ?env' and inputs = ?in and JSON_parse = stub_JSON_parse] c'
  have "runClient ?env' = ([], Inl (Error ''Connection closed''))"
    by blast
  ultimately show ?thesis using cl f1 f2 by (simp add: prod_eq_iff)
qed

text \<open>
  When listing the tools fails, the client mode never closes the session: the error
  leaves \<^verbatim>\<open>runClient\<close>, and the process prints it and exits.
\<close>

theorem client_close_skipped:
  "runClient \<lparr>connect_result = Inr \<lparr>transport_open = True, subprocess_running = True\<rparr>,
              listTools_result = Inl (Error ''Connection closed''),
              callTool_result = (\<lambda>n name args. Inr JNull)\<rparr> =
     ([], Inl (Error ''Connection closed''))
   \<and> main [''LIMITLESS_API_KEY'' \<mapsto> ''key''] [''node'', ''build/index.js'', ''client''] (Inr ()) stub_JSON_parse
        \<lparr>connect_result = Inr \<lparr>transport_open = True, subprocess_running = True\<rparr>,
         listTools_result = Inl (Error ''Connection closed''),
         callTool_result = (\<lambda>n name args. Inr JNull)\<rparr>
        \<lparr>input_lines = [], closed_before_question = False\<rparr> =
     [ConsoleError [Str ''Client error:'', Err (Error ''Connection closed'')], ProcessExit 1]"
proof (intro conjI)
  show "runClient \<lparr>connect_result = Inr \<lparr>transport_open = True, subprocess_running = True\<rparr>,
              listTools_result = Inl (Error ''Connection closed''),
              callTool_result = (\<lambda>n name args. Inr JNull)\<rparr> =
     ([], Inl (Error ''Connection closed''))"
    by (simp add: runClient_def)
  show "main [''LIMITLESS_API_KEY'' \<mapsto> ''key''] [''node'', ''build/index.js'', ''client''] (Inr ()) stub_JSON_parse
        \<lparr>connect_result = Inr \<lparr>transport_open = True, subprocess_running = True\<rparr>,
         listTools_result = Inl (Error ''Connection closed''),
         callTool_result = (\<lambda>n name args. Inr JNull)\<rparr>
        \<lparr>input_lines = [], closed_before_question = False\<rparr> =
     [ConsoleError [Str ''Client error:'', Err (Error ''Connection closed'')], ProcessExit 1]"
    by (simp add: main_def runClient_def catch_exit_def)
qed

end
